theory Spec2Isabelle
  imports Main "HOL-Library.Word" "HOL-Library.Multiset"
begin

unbundle bit_operations_syntax

section \<open>Windows command-line quoting (process\_windows.c)\<close>

text \<open>
  A C string is modelled by the list of its characters before the terminating NUL, so
  the test \<^verbatim>\<open>src[i] == '\0'\<close> of the source is the test for the empty remainder.
\<close>

definition backslash :: char where
  "backslash = CHR 0x5C"

definition dquote :: char where
  "dquote = CHR 0x22"

definition space :: char where
  "space = CHR 0x20"

definition tab :: char where
  "tab = CHR 0x09"

definition newline :: char where
  "newline = CHR 0x0A"

definition vtab :: char where
  "vtab = CHR 0x0B"

text \<open>\<^verbatim>\<open>needs_quoting\<close>: four \<^verbatim>\<open>strchr\<close> tests and the test for the empty string.\<close>

definition needs_quoting :: "string \<Rightarrow> int" where
  "needs_quoting str =
     (if space \<in> set str \<or> tab \<in> set str \<or> newline \<in> set str \<or> vtab \<in> set str \<or> str = []
      then 1 else 0)"

text \<open>The inner loop \<^verbatim>\<open>while (src[i] == '\\') { i++; backslashes++; }\<close>.\<close>

fun count_backslashes :: "string \<Rightarrow> nat" where
  "count_backslashes [] = 0"
| "count_backslashes (c # cs) = (if c = backslash then Suc (count_backslashes cs) else 0)"

lemma count_backslashes_le: "count_backslashes src \<le> length src"
  by (induction src) auto

lemma drop_count_backslashes_shorter:
  "drop (count_backslashes src) src = c # rest \<Longrightarrow> length rest < length src"
proof -
  assume h: "drop (count_backslashes src) src = c # rest"
  have "length (drop (count_backslashes src) src) \<le> length src" by simp
  with h show ?thesis by simp
qed

text \<open>
  The outer loop of \<^verbatim>\<open>quote_argument\<close>, on the remainder of \<^verbatim>\<open>src\<close> from index
  \<^verbatim>\<open>i\<close>; the result is what the loop appends to \<^verbatim>\<open>dest\<close>.
\<close>

function quote_loop :: "string \<Rightarrow> string" where
  "quote_loop src =
     (if src = [] then []
      else
        let backslashes = count_backslashes src in
        (case drop backslashes src of
           [] \<Rightarrow> replicate (backslashes * 2) backslash
         | c # rest \<Rightarrow>
             if c = dquote
             then replicate (backslashes * 2) backslash @ [backslash, dquote] @ quote_loop rest
             else replicate backslashes backslash @ [c] @ quote_loop rest))"
  by pat_completeness auto
termination
  by (relation "measure length") (auto dest: drop_count_backslashes_shorter)

declare quote_loop.simps [simp del]

definition quote_argument :: "string \<Rightarrow> string" where
  "quote_argument src = [dquote] @ quote_loop src @ [dquote]"

text \<open>
  \<^verbatim>\<open>create_command_line_ex\<close>: the command, then each argument after one space; a token
  is quoted when \<^verbatim>\<open>needs_quoting\<close> says so and copied by \<^verbatim>\<open>strcpy\<close> otherwise
  (\<open>add_token\<close> is this choice, which the source writes out for the command and again
  in the loop over the arguments). The first argument of the model is whether
  \<^verbatim>\<open>malloc\<close> succeeded; the length of the buffer, which the source computes first, is
  not part of the model.
\<close>

definition add_token :: "string \<Rightarrow> string" where
  "add_token str = (if needs_quoting str \<noteq> 0 then quote_argument str else str)"

definition create_command_line_ex :: "bool \<Rightarrow> string \<Rightarrow> string list \<Rightarrow> string option" where
  "create_command_line_ex malloc_ok cmd args =
     (if \<not> malloc_ok then None
      else Some (foldl (\<lambda>cmdline a. cmdline @ [space] @ add_token a) (add_token cmd) args))"

subsection \<open>The argument-splitting rule of the platform\<close>

text \<open>
  The command line built above is split again by the C runtime of the child. That rule is
  not code of this repository; it is modelled here from Microsoft's documentation
  (``Parsing C command-line arguments'') and from the scanning loop of the runtime's
  \<^verbatim>\<open>parse_cmdline\<close>: \<^verbatim>\<open>2n\<close> backslashes before a double quote give \<^verbatim>\<open>n\<close> backslashes
  and the quote opens or closes a quoted part; \<^verbatim>\<open>2n+1\<close> backslashes before a double
  quote give \<^verbatim>\<open>n\<close> backslashes and a literal quote; backslashes before anything else
  are literal; inside a quoted part two double quotes give one literal quote; a space or
  tab outside a quoted part ends the argument. The function scans one argument and
  returns it with the rest of the command line.
\<close>

function parse_argument :: "bool \<Rightarrow> string \<Rightarrow> string \<times> string" where
  "parse_argument inquote p =
     (let numslash = count_backslashes p in
      (case drop numslash p of
         [] \<Rightarrow> (replicate numslash backslash, [])
       | c # rest \<Rightarrow>
           if c = dquote then
             (if even numslash then
                (if inquote \<and> rest \<noteq> [] \<and> hd rest = dquote
                 then (case parse_argument inquote (tl rest) of
                         (arg, r) \<Rightarrow> (replicate (numslash div 2) backslash @ [dquote] @ arg, r))
                 else (case parse_argument (\<not> inquote) rest of
                         (arg, r) \<Rightarrow> (replicate (numslash div 2) backslash @ arg, r)))
              else (case parse_argument inquote rest of
                      (arg, r) \<Rightarrow> (replicate (numslash div 2) backslash @ [dquote] @ arg, r)))
           else if \<not> inquote \<and> (c = space \<or> c = tab)
             then (replicate numslash backslash, c # rest)
           else (case parse_argument inquote rest of
                   (arg, r) \<Rightarrow> (replicate numslash backslash @ [c] @ arg, r))))"
  by pat_completeness auto
termination
  by (relation "measure (\<lambda>(q, p). length p)")
     (auto dest: drop_count_backslashes_shorter simp: less_Suc_eq_le le_imp_less_Suc)

declare parse_argument.simps [simp del]

section \<open>Results of calls that can fault or block\<close>

text \<open>
  A store outside the caller's buffer is undefined behaviour in C; the model makes it the
  result \<open>Fault\<close>. A call that waits for the child without a bound either returns or
  blocks for ever; the model keeps the state in which it blocks.
\<close>

datatype 'a result = Returned 'a | Fault

datatype 'a outcome = Returns 'a | Blocks 'a

datatype 'c status = Running | Exited 'c

definition NUL :: char where
  "NUL = CHR 0x00"

text \<open>\<^verbatim>\<open>buffer[i] = c\<close> on a buffer of \<open>length buffer\<close> bytes.\<close>

definition store :: "char list \<Rightarrow> int \<Rightarrow> char \<Rightarrow> char list result" where
  "store buffer i c =
     (if 0 \<le> i \<and> i < int (length buffer) then Returned (buffer[nat i := c]) else Fault)"

text \<open>What one successful pipe creation hands back: the read end, then the write end.\<close>

datatype pipe_result = PipeFailed | PipeOk int int

section \<open>The POSIX backend (process.c)\<close>

record ProcessHandle =
  pid :: int
  input_fd :: int
  output_fd :: int
  error_fd :: int

text \<open>
  The state of the operating system as the calling process sees it: its open descriptors,
  its children that have not been waited for, the number of live heap blocks, and the
  calls made so far, oldest first. Constants of the system headers have their Linux
  values.
\<close>

datatype posix_call =
    SysPipe
  | SysFork
  | SysClose int
  | SysFcntl int
  | SysMalloc
  | SysFree
  | SysWaitpid int int
  | SysWrite int "char list"
  | SysWriteFailed int
  | SysFsync int
  | SysPerror string

record posix_world =
  open_fds :: "int multiset"
  children :: "int \<rightharpoonup> int status"
  heap_blocks :: nat
  calls :: "posix_call list"

definition WNOHANG :: int where
  "WNOHANG = 1"

definition POLLIN :: "16 word" where
  "POLLIN = 0x001"

definition POLLHUP :: "16 word" where
  "POLLHUP = 0x010"

definition record_call :: "posix_call \<Rightarrow> posix_world \<Rightarrow> posix_world" where
  "record_call c w = w\<lparr>calls := calls w @ [c]\<rparr>"

definition sys_perror :: "string \<Rightarrow> posix_world \<Rightarrow> posix_world" where
  "sys_perror msg w = record_call (SysPerror msg) w"

definition sys_pipe :: "pipe_result \<Rightarrow> posix_world \<Rightarrow> posix_world" where
  "sys_pipe r w =
     (case r of
        PipeFailed \<Rightarrow> record_call SysPipe w
      | PipeOk rd wr \<Rightarrow> record_call SysPipe (w\<lparr>open_fds := open_fds w + {#rd, wr#}\<rparr>))"

definition sys_close :: "int \<Rightarrow> posix_world \<Rightarrow> posix_world" where
  "sys_close fd w = record_call (SysClose fd) (w\<lparr>open_fds := open_fds w - {#fd#}\<rparr>)"

definition sys_fcntl :: "int \<Rightarrow> posix_world \<Rightarrow> posix_world" where
  "sys_fcntl fd w = record_call (SysFcntl fd) w"

text \<open>\<^verbatim>\<open>fork\<close> as the parent sees it: it fails, or it returns the new child's pid.\<close>

datatype fork_result = ForkFailed | ForkParent int

definition sys_fork :: "fork_result \<Rightarrow> posix_world \<Rightarrow> posix_world" where
  "sys_fork r w =
     (case r of
        ForkFailed \<Rightarrow> record_call SysFork w
      | ForkParent child \<Rightarrow>
          record_call SysFork (w\<lparr>children := (children w)(child \<mapsto> Running)\<rparr>))"

definition sys_malloc :: "bool \<Rightarrow> posix_world \<Rightarrow> posix_world" where
  "sys_malloc ok w =
     record_call SysMalloc (if ok then w\<lparr>heap_blocks := heap_blocks w + 1\<rparr> else w)"

definition sys_free :: "posix_world \<Rightarrow> posix_world" where
  "sys_free w = record_call SysFree (w\<lparr>heap_blocks := heap_blocks w - 1\<rparr>)"

text \<open>
  \<^verbatim>\<open>start_process\<close> in the parent. (The branch \<^verbatim>\<open>pid == 0\<close> runs in the child, which
  ends in \<^verbatim>\<open>execvp\<close> or \<^verbatim>\<open>exit\<close> and never returns to the caller.) The three
  \<^verbatim>\<open>pipe\<close> calls are joined by \<^verbatim>\<open>||\<close>: a later one is made only when the earlier ones
  succeeded. \<open>cmd\<close> and \<open>args\<close> are used by the child only.
\<close>

definition start_process ::
  "string \<Rightarrow> string list \<Rightarrow> pipe_result \<Rightarrow> pipe_result \<Rightarrow> pipe_result \<Rightarrow> fork_result \<Rightarrow> bool
     \<Rightarrow> posix_world \<Rightarrow> ProcessHandle option \<times> posix_world" where
  "start_process cmd args child_stdin child_stdout child_stderr forked malloc_ok w =
     (case child_stdin of
        PipeFailed \<Rightarrow> (None, sys_perror ''pipe'' (sys_pipe child_stdin w))
      | PipeOk stdin0 stdin1 \<Rightarrow>
     (case child_stdout of
        PipeFailed \<Rightarrow>
          (None, sys_perror ''pipe'' (sys_pipe child_stdout (sys_pipe child_stdin w)))
      | PipeOk stdout0 stdout1 \<Rightarrow>
     (case child_stderr of
        PipeFailed \<Rightarrow>
          (None, sys_perror ''pipe''
             (sys_pipe child_stderr (sys_pipe child_stdout (sys_pipe child_stdin w))))
      | PipeOk stderr0 stderr1 \<Rightarrow>
     (let w3 = sys_pipe child_stderr (sys_pipe child_stdout (sys_pipe child_stdin w));
          w4 = sys_fork forked w3
      in case forked of
           ForkFailed \<Rightarrow> (None, sys_perror ''fork'' w4)
         | ForkParent child \<Rightarrow>
             (let w5 = sys_close stderr1 (sys_close stdout1 (sys_close stdin0 w4));
                  w6 = sys_fcntl stderr0 (sys_fcntl stdout0 w5);
                  w7 = sys_malloc malloc_ok w6
              in if \<not> malloc_ok
                 then (None,
                       sys_close stderr0 (sys_close stdout0 (sys_close stdin1
                         (sys_perror ''malloc'' w7))))
                 else (Some \<lparr>pid = child, input_fd = stdin1, output_fd = stdout0,
                              error_fd = stderr0\<rparr>, w7))))))"

text \<open>
  \<^verbatim>\<open>waitpid\<close> on one child. With \<^verbatim>\<open>WNOHANG\<close> it returns 0 for a running child; for
  a child that has exited it returns the pid and removes the child from the table (the
  exit status is consumed); for a pid that is no waitable child it returns \<open>-1\<close>.
  Without \<^verbatim>\<open>WNOHANG\<close> it waits for a running child to exit; \<open>child_exit\<close> says with
  which status a running child exits later, if it ever does.
\<close>

definition sys_waitpid_nohang :: "int \<Rightarrow> posix_world \<Rightarrow> int \<times> posix_world" where
  "sys_waitpid_nohang p w =
     (let w' = record_call (SysWaitpid p WNOHANG) w in
      case children w p of
        None \<Rightarrow> (-1, w')
      | Some Running \<Rightarrow> (0, w')
      | Some (Exited st) \<Rightarrow> (p, w'\<lparr>children := (children w)(p := None)\<rparr>))"

definition sys_waitpid_wait ::
  "int \<Rightarrow> int option \<Rightarrow> posix_world \<Rightarrow> (int \<times> posix_world) outcome" where
  "sys_waitpid_wait p child_exit w =
     (let w' = record_call (SysWaitpid p 0) w in
      case children w p of
        None \<Rightarrow> Returns (-1, w')
      | Some (Exited st) \<Rightarrow> Returns (p, w'\<lparr>children := (children w)(p := None)\<rparr>)
      | Some Running \<Rightarrow>
          (case child_exit of
             None \<Rightarrow> Blocks (0, w')
           | Some st \<Rightarrow> Returns (p, w'\<lparr>children := (children w)(p := None)\<rparr>)))"

definition close_process ::
  "ProcessHandle option \<Rightarrow> int option \<Rightarrow> posix_world \<Rightarrow> posix_world outcome" where
  "close_process handle child_exit w =
     (case handle of
        None \<Rightarrow> Returns w
      | Some h \<Rightarrow>
          (let w1 = (if input_fd h \<ge> 0 then sys_close (input_fd h) w else w);
               w2 = (if output_fd h \<ge> 0 then sys_close (output_fd h) w1 else w1);
               w3 = (if error_fd h \<ge> 0 then sys_close (error_fd h) w2 else w2)
           in case sys_waitpid_wait (pid h) child_exit w3 of
                Blocks (r, w4) \<Rightarrow> Blocks w4
              | Returns (r, w4) \<Rightarrow> Returns (sys_free w4)))"

definition is_running :: "ProcessHandle option \<Rightarrow> posix_world \<Rightarrow> int \<times> posix_world" where
  "is_running handle w =
     (case handle of
        None \<Rightarrow> (0, w)
      | Some h \<Rightarrow>
          (case sys_waitpid_nohang (pid h) w of
             (result, w') \<Rightarrow>
               if result = 0 then (1, w')
               else if result = -1 then (0, w')
               else (0, w')))"


text \<open>
  What the kernel does on one \<^verbatim>\<open>write\<close>: it takes some bytes (never more than it was
  asked to take), or the call is interrupted (\<^verbatim>\<open>EINTR\<close>), or it fails for another reason.
\<close>

datatype write_outcome = Accepted nat | Interrupted | WriteFailed

text \<open>
  The loop of \<^verbatim>\<open>write_to_process\<close>. The kernel's answers to the successive
  \<^verbatim>\<open>write\<close> calls are a list; when the list is used up and the loop has not ended, the
  result is \<open>None\<close>: the call has not returned. \<open>data\<close> and its length stand for the
  arguments \<^verbatim>\<open>data\<close> and \<^verbatim>\<open>length\<close>.
\<close>

fun write_loop ::
  "int \<Rightarrow> char list \<Rightarrow> int \<Rightarrow> write_outcome list \<Rightarrow> posix_world
     \<Rightarrow> (int \<times> posix_world) option" where
  "write_loop fd data total_written answers w =
     (if total_written < int (length data) then
        (case answers of
           [] \<Rightarrow> None
         | Accepted k # later \<Rightarrow>
             (let written = min (int k) (int (length data) - total_written);
                  chunk = take (nat written) (drop (nat total_written) data)
              in write_loop fd data (total_written + written) later
                   (record_call (SysWrite fd chunk) w))
         | Interrupted # later \<Rightarrow>
             write_loop fd data total_written later (record_call (SysWriteFailed fd) w)
         | WriteFailed # later \<Rightarrow> Some (-1, record_call (SysWriteFailed fd) w))
      else Some (total_written, record_call (SysFsync fd) w))"

declare write_loop.simps [simp del]

definition write_to_process ::
  "ProcessHandle option \<Rightarrow> char list \<Rightarrow> write_outcome list \<Rightarrow> posix_world
     \<Rightarrow> (int \<times> posix_world) option" where
  "write_to_process handle data answers w =
     (case handle of
        None \<Rightarrow> Some (-1, w)
      | Some h \<Rightarrow>
          if input_fd h < 0 then Some (-1, w)
          else write_loop (input_fd h) data 0 answers w)"

text \<open>
  What the kernel does on one \<^verbatim>\<open>read\<close>: it fails, or it has some bytes ready (none at
  end of stream) and copies at most \<open>nbytes\<close> of them to the front of the buffer. The
  number is converted to \<^verbatim>\<open>size_t\<close> (64 bits). Copying past the end of the buffer is a
  fault.
\<close>

datatype read_outcome = ReadFailed | ReadData "char list"

definition sys_read :: "read_outcome \<Rightarrow> char list \<Rightarrow> int \<Rightarrow> (int \<times> char list) result" where
  "sys_read r buffer nbytes =
     (case r of
        ReadFailed \<Rightarrow> Returned (-1, buffer)
      | ReadData ready \<Rightarrow>
          (let got = take (nat (nbytes mod 2 ^ 64)) ready in
           if length got \<le> length buffer
           then Returned (int (length got), got @ drop (length got) buffer)
           else Fault))"

text \<open>
  The three read operations end in the same lines: \<^verbatim>\<open>read\<close> of at most
  \<^verbatim>\<open>buffer_size - 1\<close> bytes, the terminator at index \<^verbatim>\<open>bytes_read\<close> when
  \<^verbatim>\<open>bytes_read > 0\<close>, and \<^verbatim>\<open>return bytes_read\<close>.
\<close>

definition read_terminated :: "read_outcome \<Rightarrow> char list \<Rightarrow> int \<Rightarrow> (int \<times> char list) result" where
  "read_terminated r buffer buffer_size =
     (case sys_read r buffer (buffer_size - 1) of
        Fault \<Rightarrow> Fault
      | Returned (bytes_read, buffer') \<Rightarrow>
          if bytes_read > 0
          then (case store buffer' bytes_read NUL of
                  Fault \<Rightarrow> Fault
                | Returned buffer'' \<Rightarrow> Returned (bytes_read, buffer''))
          else Returned (bytes_read, buffer'))"

text \<open>
  The bodies of \<^verbatim>\<open>read_from_output\<close> and \<^verbatim>\<open>read_from_error\<close> after the test of the
  handle are the same text, on \<^verbatim>\<open>output_fd\<close> and on \<^verbatim>\<open>error_fd\<close>; \<open>read_from_fd\<close>
  is that body. \<open>poll_result\<close> and \<open>revents\<close> are what \<^verbatim>\<open>poll\<close> answered for the
  timeout, \<open>kernel_read\<close> what a \<^verbatim>\<open>read\<close> on a descriptor would deliver.
\<close>

definition read_from_fd ::
  "int \<Rightarrow> char list \<Rightarrow> int \<Rightarrow> int \<Rightarrow> 16 word \<Rightarrow> (int \<Rightarrow> read_outcome)
     \<Rightarrow> (int \<times> char list) result" where
  "read_from_fd fd buffer buffer_size poll_result revents kernel_read =
     (if poll_result = -1 then Returned (-1, buffer)
      else if poll_result = 0 then Returned (0, buffer)
      else if revents AND POLLIN \<noteq> 0 then read_terminated (kernel_read fd) buffer buffer_size
      else if revents AND POLLHUP \<noteq> 0 then Returned (0, buffer)
      else Returned (-1, buffer))"

definition read_from_output ::
  "ProcessHandle option \<Rightarrow> char list \<Rightarrow> int \<Rightarrow> int \<Rightarrow> int \<Rightarrow> 16 word \<Rightarrow> (int \<Rightarrow> read_outcome)
     \<Rightarrow> (int \<times> char list) result" where
  "read_from_output handle buffer buffer_size timeout_ms poll_result revents kernel_read =
     (case handle of
        None \<Rightarrow> Returned (-1, buffer)
      | Some h \<Rightarrow>
          if output_fd h < 0 then Returned (-1, buffer)
          else read_from_fd (output_fd h) buffer buffer_size poll_result revents kernel_read)"

definition read_from_error ::
  "ProcessHandle option \<Rightarrow> char list \<Rightarrow> int \<Rightarrow> int \<Rightarrow> int \<Rightarrow> 16 word \<Rightarrow> (int \<Rightarrow> read_outcome)
     \<Rightarrow> (int \<times> char list) result" where
  "read_from_error handle buffer buffer_size timeout_ms poll_result revents kernel_read =
     (case handle of
        None \<Rightarrow> Returned (-1, buffer)
      | Some h \<Rightarrow>
          if error_fd h < 0 then Returned (-1, buffer)
          else read_from_fd (error_fd h) buffer buffer_size poll_result revents kernel_read)"

text \<open>
  \<^verbatim>\<open>read_available\<close>. \<open>source\<close> is \<open>None\<close> for a null pointer and otherwise holds the
  value of \<^verbatim>\<open>*source\<close>; \<open>revents i\<close> is what \<^verbatim>\<open>poll\<close> stored in \<^verbatim>\<open>pfds[i].revents\<close>.
  The loop over \<^verbatim>\<open>i\<close> is the recursion over the indices \<open>[0..<nfds]\<close>.
\<close>

fun read_available_scan ::
  "ProcessHandle \<Rightarrow> char list \<Rightarrow> int \<Rightarrow> int option \<Rightarrow> (nat \<Rightarrow> 16 word) \<Rightarrow> (int \<Rightarrow> read_outcome)
     \<Rightarrow> nat list \<Rightarrow> (int \<times> char list \<times> int option) result" where
  "read_available_scan h buffer buffer_size source revents kernel_read [] =
     Returned (0, buffer, source)"
| "read_available_scan h buffer buffer_size source revents kernel_read (i # later) =
     (if revents i AND POLLIN \<noteq> 0 then
        (let (fd_to_read, source') =
               (if i = 0 \<and> output_fd h \<ge> 0
                then (output_fd h, map_option (\<lambda>_. 1) source)
                else (error_fd h, map_option (\<lambda>_. 2) source))
         in case read_terminated (kernel_read fd_to_read) buffer buffer_size of
              Fault \<Rightarrow> Fault
            | Returned (bytes_read, buffer') \<Rightarrow> Returned (bytes_read, buffer', source'))
      else read_available_scan h buffer buffer_size source revents kernel_read later)"

definition read_available ::
  "ProcessHandle option \<Rightarrow> char list \<Rightarrow> int \<Rightarrow> int \<Rightarrow> int option \<Rightarrow> int \<Rightarrow> (nat \<Rightarrow> 16 word)
     \<Rightarrow> (int \<Rightarrow> read_outcome) \<Rightarrow> (int \<times> char list \<times> int option) result" where
  "read_available handle buffer buffer_size timeout_ms source poll_result revents kernel_read =
     (case handle of
        None \<Rightarrow> Returned (-1, buffer, source)
      | Some h \<Rightarrow>
          (let nfds = (if output_fd h \<ge> 0 then 1 else 0) + (if error_fd h \<ge> 0 then 1 else (0::nat))
           in if nfds = 0 then Returned (-1, buffer, source)
              else if poll_result = -1 then Returned (-1, buffer, source)
              else if poll_result = 0 then Returned (0, buffer, source)
              else read_available_scan h buffer buffer_size source revents kernel_read
                     [0..<nfds]))"


section \<open>The Windows backend (process\_windows.c)\<close>

text \<open>
  A \<^verbatim>\<open>HANDLE\<close> is modelled by an integer, a \<^verbatim>\<open>DWORD\<close> by a 32-bit word. The constants
  of the Windows headers have the values of the Windows SDK. The names of the source
  that the POSIX backend also uses carry the suffix \<open>_win\<close>.
\<close>

definition INVALID_HANDLE_VALUE :: int where
  "INVALID_HANDLE_VALUE = -1"

definition STILL_ACTIVE :: "32 word" where
  "STILL_ACTIVE = 259"

definition WAIT_OBJECT_0 :: "32 word" where
  "WAIT_OBJECT_0 = 0"

definition WAIT_TIMEOUT :: "32 word" where
  "WAIT_TIMEOUT = 258"

definition WAIT_FAILED :: "32 word" where
  "WAIT_FAILED = 0xFFFFFFFF"

definition ERROR_BROKEN_PIPE :: "32 word" where
  "ERROR_BROKEN_PIPE = 109"

definition ERROR_NO_DATA :: "32 word" where
  "ERROR_NO_DATA = 232"

definition ERROR_IO_PENDING :: "32 word" where
  "ERROR_IO_PENDING = 997"

record ProcessHandle_win =
  pid_win :: "32 word"
  hProcess :: int
  input_fd_win :: int
  output_fd_win :: int
  error_fd_win :: int

datatype win_call =
    WinCreatePipe
  | WinSetHandleInformation int
  | WinCreateProcess string
  | WinCloseHandle int
  | WinMalloc
  | WinFree
  | WinTerminateProcess int "32 word"
  | WinWaitForSingleObject int "32 word"
  | WinGetExitCodeProcess int
  | WinWriteFile int "char list"
  | WinFlushFileBuffers int

record win_world =
  open_handles :: "int multiset"
  processes :: "int \<rightharpoonup> 32 word status"
  heap_blocks_win :: nat
  calls_win :: "win_call list"

definition record_call_win :: "win_call \<Rightarrow> win_world \<Rightarrow> win_world" where
  "record_call_win c w = w\<lparr>calls_win := calls_win w @ [c]\<rparr>"

definition CreatePipe :: "pipe_result \<Rightarrow> win_world \<Rightarrow> win_world" where
  "CreatePipe r w =
     (case r of
        PipeFailed \<Rightarrow> record_call_win WinCreatePipe w
      | PipeOk rd wr \<Rightarrow>
          record_call_win WinCreatePipe (w\<lparr>open_handles := open_handles w + {#rd, wr#}\<rparr>))"

definition CloseHandle :: "int \<Rightarrow> win_world \<Rightarrow> win_world" where
  "CloseHandle h w =
     record_call_win (WinCloseHandle h) (w\<lparr>open_handles := open_handles w - {#h#}\<rparr>)"

definition malloc_win :: "bool \<Rightarrow> win_world \<Rightarrow> win_world" where
  "malloc_win ok w =
     record_call_win WinMalloc (if ok then w\<lparr>heap_blocks_win := heap_blocks_win w + 1\<rparr> else w)"

definition free_win :: "win_world \<Rightarrow> win_world" where
  "free_win w = record_call_win WinFree (w\<lparr>heap_blocks_win := heap_blocks_win w - 1\<rparr>)"

text \<open>
  The three \<^verbatim>\<open>SetHandleInformation\<close> calls are joined by \<^verbatim>\<open>||\<close> on their negations:
  the chain stops at the first call that fails.
\<close>

fun SetHandleInformation_chain :: "(int \<times> bool) list \<Rightarrow> win_world \<Rightarrow> bool \<times> win_world" where
  "SetHandleInformation_chain [] w = (True, w)"
| "SetHandleInformation_chain ((h, ok) # later) w =
     (if ok then SetHandleInformation_chain later (record_call_win (WinSetHandleInformation h) w)
      else (False, record_call_win (WinSetHandleInformation h) w))"

text \<open>
  \<^verbatim>\<open>CreateProcess\<close> fails, or hands back the process handle, the thread handle and the
  process id.
\<close>

datatype create_process_result = CreateProcessFailed | CreateProcessOk int int "32 word"

definition CreateProcess :: "string \<Rightarrow> create_process_result \<Rightarrow> win_world \<Rightarrow> win_world" where
  "CreateProcess cmdline r w =
     (case r of
        CreateProcessFailed \<Rightarrow> record_call_win (WinCreateProcess cmdline) w
      | CreateProcessOk hp ht p \<Rightarrow>
          record_call_win (WinCreateProcess cmdline)
            (w\<lparr>open_handles := open_handles w + {#hp, ht#},
               processes := (processes w)(hp \<mapsto> Running)\<rparr>))"

definition start_process_win ::
  "string \<Rightarrow> string list \<Rightarrow> pipe_result \<Rightarrow> pipe_result \<Rightarrow> pipe_result \<Rightarrow> bool \<Rightarrow> bool \<Rightarrow> bool
     \<Rightarrow> bool \<Rightarrow> create_process_result \<Rightarrow> bool \<Rightarrow> win_world
     \<Rightarrow> ProcessHandle_win option \<times> win_world" where
  "start_process_win cmd args stdin_pipe stdout_pipe stderr_pipe shi_in shi_out shi_err
       cmdline_malloc_ok created malloc_ok w =
     (case stdin_pipe of
        PipeFailed \<Rightarrow> (None, CreatePipe stdin_pipe w)
      | PipeOk hChildStdinRd hChildStdinWr \<Rightarrow>
     (case stdout_pipe of
        PipeFailed \<Rightarrow>
          (None, fold CloseHandle [hChildStdinRd, hChildStdinWr]
                   (CreatePipe stdout_pipe (CreatePipe stdin_pipe w)))
      | PipeOk hChildStdoutRd hChildStdoutWr \<Rightarrow>
     (case stderr_pipe of
        PipeFailed \<Rightarrow>
          (None, fold CloseHandle [hChildStdinRd, hChildStdinWr, hChildStdoutRd, hChildStdoutWr]
                   (CreatePipe stderr_pipe (CreatePipe stdout_pipe (CreatePipe stdin_pipe w))))
      | PipeOk hChildStderrRd hChildStderrWr \<Rightarrow>
     (let all_six = [hChildStdinRd, hChildStdinWr, hChildStdoutRd, hChildStdoutWr,
                     hChildStderrRd, hChildStderrWr];
          w3 = CreatePipe stderr_pipe (CreatePipe stdout_pipe (CreatePipe stdin_pipe w))
      in case SetHandleInformation_chain
                [(hChildStdinWr, shi_in), (hChildStdoutRd, shi_out), (hChildStderrRd, shi_err)] w3 of
           (False, w4) \<Rightarrow> (None, fold CloseHandle all_six w4)
         | (True, w4) \<Rightarrow>
             (let w5 = malloc_win cmdline_malloc_ok w4 in
              case create_command_line_ex cmdline_malloc_ok cmd args of
                None \<Rightarrow> (None, fold CloseHandle all_six w5)
              | Some cmdline \<Rightarrow>
                  (let w6 = CreateProcess cmdline created w5;
                       w7 = free_win w6;
                       w8 = fold CloseHandle [hChildStdinRd, hChildStdoutWr, hChildStderrWr] w7
                   in case created of
                        CreateProcessFailed \<Rightarrow>
                          (None, fold CloseHandle
                                   [hChildStdinWr, hChildStdoutRd, hChildStderrRd] w8)
                      | CreateProcessOk hp ht p \<Rightarrow>
                          (let w9 = CloseHandle ht w8;
                               w10 = malloc_win malloc_ok w9
                           in if \<not> malloc_ok
                              then (None, fold CloseHandle
                                            [hChildStdinWr, hChildStdoutRd, hChildStderrRd, hp]
                                            w10)
                              else (Some \<lparr>pid_win = p, hProcess = hp,
                                           input_fd_win = hChildStdinWr,
                                           output_fd_win = hChildStdoutRd,
                                           error_fd_win = hChildStderrRd\<rparr>, w10))))))))"

text \<open>
  \<^verbatim>\<open>TerminateProcess\<close> ends a process that is still running, with the exit code given.
  \<^verbatim>\<open>WaitForSingleObject\<close> returns after the time given at the latest; \<open>wait_result\<close> is
  what it returned.
\<close>

definition TerminateProcess :: "int \<Rightarrow> 32 word \<Rightarrow> win_world \<Rightarrow> win_world" where
  "TerminateProcess h code w =
     record_call_win (WinTerminateProcess h code)
       (if processes w h = Some Running
        then w\<lparr>processes := (processes w)(h \<mapsto> Exited code)\<rparr> else w)"

definition WaitForSingleObject :: "int \<Rightarrow> 32 word \<Rightarrow> win_world \<Rightarrow> win_world" where
  "WaitForSingleObject h ms w = record_call_win (WinWaitForSingleObject h ms) w"

definition close_process_win :: "ProcessHandle_win option \<Rightarrow> 32 word \<Rightarrow> win_world \<Rightarrow> win_world" where
  "close_process_win handle wait_result w =
     (case handle of
        None \<Rightarrow> w
      | Some h \<Rightarrow>
          (let w1 = (if input_fd_win h \<noteq> INVALID_HANDLE_VALUE
                     then CloseHandle (input_fd_win h) w else w);
               w2 = (if output_fd_win h \<noteq> INVALID_HANDLE_VALUE
                     then CloseHandle (output_fd_win h) w1 else w1);
               w3 = (if error_fd_win h \<noteq> INVALID_HANDLE_VALUE
                     then CloseHandle (error_fd_win h) w2 else w2);
               w4 = (if hProcess h \<noteq> INVALID_HANDLE_VALUE
                     then CloseHandle (hProcess h)
                            (WaitForSingleObject (hProcess h) 5000
                               (TerminateProcess (hProcess h) 0 w3))
                     else w3)
           in free_win w4))"

text \<open>
  \<^verbatim>\<open>GetExitCodeProcess\<close> fails on a handle that is no process; for a process it stores
  \<^verbatim>\<open>STILL_ACTIVE\<close> while the process runs and the exit code afterwards.
\<close>

definition GetExitCodeProcess :: "int \<Rightarrow> win_world \<Rightarrow> 32 word option \<times> win_world" where
  "GetExitCodeProcess h w =
     (case processes w h of
        None \<Rightarrow> (None, record_call_win (WinGetExitCodeProcess h) w)
      | Some Running \<Rightarrow> (Some STILL_ACTIVE, record_call_win (WinGetExitCodeProcess h) w)
      | Some (Exited code) \<Rightarrow> (Some code, record_call_win (WinGetExitCodeProcess h) w))"

definition is_running_win :: "ProcessHandle_win option \<Rightarrow> win_world \<Rightarrow> int \<times> win_world" where
  "is_running_win handle w =
     (case handle of
        None \<Rightarrow> (0, w)
      | Some h \<Rightarrow>
          if hProcess h = INVALID_HANDLE_VALUE then (0, w)
          else (case GetExitCodeProcess (hProcess h) w of
                  (Some exitCode, w') \<Rightarrow> (if exitCode = STILL_ACTIVE then 1 else 0, w')
                | (None, w') \<Rightarrow> (0, w')))"

text \<open>
  \<^verbatim>\<open>WriteFile\<close> succeeds and reports the number of bytes written, or fails with an error
  code that \<^verbatim>\<open>GetLastError\<close> returns.
\<close>

datatype write_file_result = WriteFileOk "32 word" | WriteFileFailed "32 word"

definition write_to_process_win ::
  "ProcessHandle_win option \<Rightarrow> char list \<Rightarrow> write_file_result \<Rightarrow> win_world \<Rightarrow> int \<times> win_world" where
  "write_to_process_win handle data written w =
     (case handle of
        None \<Rightarrow> (-1, w)
      | Some h \<Rightarrow>
          if input_fd_win h = INVALID_HANDLE_VALUE then (-1, w)
          else
            (let w1 = record_call_win (WinWriteFile (input_fd_win h) data) w in
             case written of
               WriteFileFailed err \<Rightarrow>
                 if err = ERROR_NO_DATA \<or> err = ERROR_BROKEN_PIPE then (0, w1) else (-1, w1)
             | WriteFileOk bytesWritten \<Rightarrow>
                 (sint bytesWritten,
                  record_call_win (WinFlushFileBuffers (input_fd_win h)) w1)))"


text \<open>
  \<^verbatim>\<open>ReadFile\<close> completes at once with the bytes that are ready, or fails with an error
  code (\<^verbatim>\<open>ERROR_IO_PENDING\<close> when the read goes on in the background);
  \<^verbatim>\<open>GetOverlappedResult\<close> fails or reports the bytes a background read delivered. In
  both cases at most the number of bytes asked for, converted to \<^verbatim>\<open>DWORD\<close>, is copied
  to the front of the buffer.
\<close>

datatype read_file_result = ReadFileOk "char list" | ReadFileFailed "32 word"

datatype overlapped_result = OverlappedFailed | OverlappedOk "char list"

definition transfer_win :: "char list \<Rightarrow> char list \<Rightarrow> int \<Rightarrow> (32 word \<times> char list) result" where
  "transfer_win ready buffer nbytes =
     (let got = take (unat (word_of_int nbytes :: 32 word)) ready in
      if length got \<le> length buffer
      then Returned (of_nat (length got), got @ drop (length got) buffer)
      else Fault)"

text \<open>
  \<^verbatim>\<open>read_from_handle\<close>. \<open>hEvent\<close> is what \<^verbatim>\<open>CreateEvent\<close> returned (0 for
  \<^verbatim>\<open>NULL\<close>), \<open>wait_result\<close> what \<^verbatim>\<open>WaitForSingleObject\<close> returned. \<^verbatim>\<open>bytesRead\<close> is
  a \<^verbatim>\<open>DWORD\<close>: the assignment of \<open>-1\<close> stores \<open>0xFFFFFFFF\<close>, the comparisons are
  unsigned, and the index of the terminator is the unsigned value. The read operations are
  modelled by their return value and the buffer; the event handle, which the source closes
  before it looks at \<^verbatim>\<open>bytesRead\<close>, is not tracked.
\<close>

definition read_from_handle ::
  "int \<Rightarrow> char list \<Rightarrow> int \<Rightarrow> int \<Rightarrow> int \<Rightarrow> read_file_result \<Rightarrow> 32 word \<Rightarrow> overlapped_result
     \<Rightarrow> (int \<times> char list) result" where
  "read_from_handle h buffer buffer_size timeout_ms hEvent read_file wait_result overlapped =
     (if h = INVALID_HANDLE_VALUE then Returned (-1, buffer)
      else if hEvent = 0 then Returned (-1, buffer)
      else
        (case (case read_file of
                 ReadFileOk ready \<Rightarrow> transfer_win ready buffer (buffer_size - 1)
               | ReadFileFailed err \<Rightarrow>
                   if err = ERROR_IO_PENDING then
                     (if wait_result = WAIT_OBJECT_0 then
                        (case overlapped of
                           OverlappedOk ready \<Rightarrow> transfer_win ready buffer (buffer_size - 1)
                         | OverlappedFailed \<Rightarrow> Returned (0, buffer))
                      else Returned (0, buffer))
                   else if err = ERROR_BROKEN_PIPE then Returned (0, buffer)
                   else Returned (- 1, buffer)) of
           Fault \<Rightarrow> Fault
         | Returned (bytesRead, buffer') \<Rightarrow>
             if bytesRead > 0
             then (case store buffer' (uint bytesRead) NUL of
                     Fault \<Rightarrow> Fault
                   | Returned buffer'' \<Rightarrow> Returned (sint bytesRead, buffer''))
             else if bytesRead = 0 then Returned (0, buffer')
             else Returned (sint bytesRead, buffer')))"

definition read_from_output_win ::
  "ProcessHandle_win option \<Rightarrow> char list \<Rightarrow> int \<Rightarrow> int \<Rightarrow> int \<Rightarrow> read_file_result \<Rightarrow> 32 word
     \<Rightarrow> overlapped_result \<Rightarrow> (int \<times> char list) result" where
  "read_from_output_win handle buffer buffer_size timeout_ms hEvent read_file wait_result
       overlapped =
     (case handle of
        None \<Rightarrow> Returned (-1, buffer)
      | Some h \<Rightarrow>
          if output_fd_win h = INVALID_HANDLE_VALUE then Returned (-1, buffer)
          else read_from_handle (output_fd_win h) buffer buffer_size timeout_ms hEvent read_file
                 wait_result overlapped)"

definition read_from_error_win ::
  "ProcessHandle_win option \<Rightarrow> char list \<Rightarrow> int \<Rightarrow> int \<Rightarrow> int \<Rightarrow> read_file_result \<Rightarrow> 32 word
     \<Rightarrow> overlapped_result \<Rightarrow> (int \<times> char list) result" where
  "read_from_error_win handle buffer buffer_size timeout_ms hEvent read_file wait_result
       overlapped =
     (case handle of
        None \<Rightarrow> Returned (-1, buffer)
      | Some h \<Rightarrow>
          if error_fd_win h = INVALID_HANDLE_VALUE then Returned (-1, buffer)
          else read_from_handle (error_fd_win h) buffer buffer_size timeout_ms hEvent read_file
                 wait_result overlapped)"

text \<open>
  \<^verbatim>\<open>read_available\<close> of the Windows backend. \<open>wait_result\<close> is what
  \<^verbatim>\<open>WaitForMultipleObjects\<close> returned, \<open>read_file h\<close> what the \<^verbatim>\<open>ReadFile\<close> on the
  handle \<open>h\<close> does, \<open>last_error\<close> what \<^verbatim>\<open>GetLastError\<close> returns after a
  \<^verbatim>\<open>ReadFile\<close> that did not fail.
\<close>

definition read_available_win ::
  "ProcessHandle_win option \<Rightarrow> char list \<Rightarrow> int \<Rightarrow> int \<Rightarrow> int option \<Rightarrow> 32 word
     \<Rightarrow> (int \<Rightarrow> read_file_result) \<Rightarrow> 32 word \<Rightarrow> (int \<times> char list \<times> int option) result" where
  "read_available_win handle buffer buffer_size timeout_ms source wait_result read_file
       last_error =
     (case handle of
        None \<Rightarrow> Returned (-1, buffer, source)
      | Some ph \<Rightarrow>
          (let handles =
                 (if output_fd_win ph \<noteq> INVALID_HANDLE_VALUE then [output_fd_win ph] else []) @
                 (if error_fd_win ph \<noteq> INVALID_HANDLE_VALUE then [error_fd_win ph] else []);
               handleCount = length handles
           in if handleCount = 0 then Returned (-1, buffer, source)
              else if wait_result = WAIT_TIMEOUT then Returned (0, buffer, source)
              else if wait_result \<ge> WAIT_OBJECT_0 \<and> wait_result < WAIT_OBJECT_0 + of_nat handleCount
              then
                (let index = unat (wait_result - WAIT_OBJECT_0);
                     h = handles ! index;
                     source' = map_option (\<lambda>_. if h = output_fd_win ph then 1 else 2) source
                 in case read_file h of
                      ReadFileFailed err \<Rightarrow>
                        if err = ERROR_BROKEN_PIPE then Returned (0, buffer, source')
                        else Returned (0, buffer, source')
                    | ReadFileOk ready \<Rightarrow>
                        (case transfer_win ready buffer (buffer_size - 1) of
                           Fault \<Rightarrow> Fault
                         | Returned (bytesRead, buffer') \<Rightarrow>
                             if bytesRead > 0
                             then (case store buffer' (uint bytesRead) NUL of
                                     Fault \<Rightarrow> Fault
                                   | Returned buffer'' \<Rightarrow>
                                       Returned (sint bytesRead, buffer'', source'))
                             else if last_error = ERROR_BROKEN_PIPE
                             then Returned (0, buffer', source')
                             else Returned (0, buffer', source')))
              else if wait_result = WAIT_FAILED then Returned (-1, buffer, source)
              else Returned (0, buffer, source)))"


section \<open>Runs, and what the calls add up to\<close>









text \<open>The state in which a call returned or blocked, and whether it blocked.\<close>

fun world_of :: "'a outcome \<Rightarrow> 'a" where
  "world_of (Returns w) = w"
| "world_of (Blocks w) = w"

fun blocked :: "'a outcome \<Rightarrow> bool" where
  "blocked (Returns w) = False"
| "blocked (Blocks w) = True"

text \<open>The bytes that the \<^verbatim>\<open>write\<close> calls of a list of calls put into a descriptor.\<close>

fun bytes_written :: "int \<Rightarrow> posix_call list \<Rightarrow> char list" where
  "bytes_written fd [] = []"
| "bytes_written fd (SysWrite fd' chunk # cs) =
     (if fd' = fd then chunk @ bytes_written fd cs else bytes_written fd cs)"
| "bytes_written fd (c # cs) = bytes_written fd cs"

text \<open>The number of bytes that a list of answers of the kernel is ready to take.\<close>

fun accepted_total :: "write_outcome list \<Rightarrow> nat" where
  "accepted_total [] = 0"
| "accepted_total (Accepted k # later) = k + accepted_total later"
| "accepted_total (a # later) = accepted_total later"

text \<open>
  What a read operation leaves behind when it returns \<open>n\<close> for a buffer of
  \<open>buffer_size\<close> bytes: \<open>n\<close> is at most \<open>buffer_size - 1\<close>; for a positive \<open>n\<close> the
  buffer starts with \<open>n\<close> bytes that were ready on a channel that was read, has the
  terminator at index \<open>n\<close> and is unchanged after it; otherwise the buffer is as it was.
  The bytes that were ready are listed per answer of the operating system.
\<close>

fun ready_bytes :: "read_outcome \<Rightarrow> char list list" where
  "ready_bytes ReadFailed = []"
| "ready_bytes (ReadData ready) = [ready]"

fun ready_bytes_win :: "read_file_result \<Rightarrow> char list list" where
  "ready_bytes_win (ReadFileFailed err) = []"
| "ready_bytes_win (ReadFileOk ready) = [ready]"

fun ready_bytes_overlapped :: "overlapped_result \<Rightarrow> char list list" where
  "ready_bytes_overlapped OverlappedFailed = []"
| "ready_bytes_overlapped (OverlappedOk ready) = [ready]"

definition read_post :: "int \<Rightarrow> char list \<Rightarrow> char list list \<Rightarrow> int \<Rightarrow> char list \<Rightarrow> bool" where
  "read_post buffer_size buffer candidates n buffer' \<longleftrightarrow>
     n \<le> buffer_size - 1 \<and> length buffer' = length buffer \<and>
     (if 0 < n
      then buffer' ! nat n = NUL
           \<and> (\<exists>ready \<in> set candidates.
                 nat n \<le> length ready \<and> take (nat n) buffer' = take (nat n) ready)
           \<and> drop (nat n + 1) buffer' = drop (nat n + 1) buffer
      else buffer' = buffer)"

text \<open>A \<^verbatim>\<open>ReadFile\<close> that fails with a code other than the two the source names.\<close>

definition other_read_error :: "read_file_result \<Rightarrow> bool" where
  "other_read_error read_file =
     (case read_file of
        ReadFileOk ready \<Rightarrow> False
      | ReadFileFailed err \<Rightarrow> err \<noteq> ERROR_IO_PENDING \<and> err \<noteq> ERROR_BROKEN_PIPE)"

text \<open>Handles and states for the examples.\<close>

definition handle0 :: ProcessHandle where
  "handle0 = \<lparr>pid = 100, input_fd = 4, output_fd = 5, error_fd = 7\<rparr>"

definition world0 :: posix_world where
  "world0 = \<lparr>open_fds = {#0, 1, 2, 4, 5, 7#}, children = [100 \<mapsto> Running], heap_blocks = 1,
             calls = []\<rparr>"

definition world_exited :: posix_world where
  "world_exited = \<lparr>open_fds = {#0, 1, 2, 4, 5, 7#}, children = [100 \<mapsto> Exited 0],
                   heap_blocks = 1, calls = []\<rparr>"

definition handle0_win :: ProcessHandle_win where
  "handle0_win = \<lparr>pid_win = 100, hProcess = 40, input_fd_win = 44, output_fd_win = 48,
                 error_fd_win = 52\<rparr>"

definition world0_win :: win_world where
  "world0_win = \<lparr>open_handles = {#40, 44, 48, 52#}, processes = [40 \<mapsto> Running],
                 heap_blocks_win = 1, calls_win = []\<rparr>"



section \<open>Properties of the quoting\<close>

lemma count_backslashes_replicate_end [simp]:
  "count_backslashes (replicate k backslash) = k"
  by (induction k) auto

lemma count_backslashes_replicate [simp]:
  "c \<noteq> backslash \<Longrightarrow> count_backslashes (replicate k backslash @ c # t) = k"
  by (induction k) auto

lemma backslash_neq_dquote [simp]: "dquote \<noteq> backslash" "backslash \<noteq> dquote"
  by (simp_all add: backslash_def dquote_def)

lemma quote_loop_end: "quote_loop (replicate k backslash) = replicate (2 * k) backslash"
  by (subst quote_loop.simps) (simp add: mult.commute)

lemma quote_loop_dquote:
  "quote_loop (replicate k backslash @ dquote # t) =
     replicate (2 * k) backslash @ [backslash, dquote] @ quote_loop t"
  by (subst quote_loop.simps) (simp add: mult.commute)

lemma quote_loop_other:
  "c \<noteq> backslash \<Longrightarrow> c \<noteq> dquote \<Longrightarrow>
   quote_loop (replicate k backslash @ c # t) = replicate k backslash @ [c] @ quote_loop t"
  by (subst quote_loop.simps) simp

text \<open>
  Claim C1. A token needs quoting exactly when it is empty or contains a space, a tab, a
  newline or a vertical tab. The quoted token is the argument between two double quotes,
  where a run of \<open>k\<close> backslashes at the end of the argument becomes \<open>2k\<close> backslashes,
  a run of \<open>k\<close> backslashes before a double quote becomes \<open>2k\<close> backslashes, a
  backslash and the quote, and a run of backslashes before any other character is copied
  with that character. Every argument is a sequence of such pieces, so the three
  equations fix the whole token. The argument \<^verbatim>\<open>C:\path with space\\<close> gives a token that
  ends in two backslashes and the closing quote.
\<close>

theorem quoting_rule:
  "(needs_quoting s = 1 \<longleftrightarrow>
      s = [] \<or> space \<in> set s \<or> tab \<in> set s \<or> newline \<in> set s \<or> vtab \<in> set s)
   \<and> (needs_quoting s \<noteq> 1 \<longrightarrow> needs_quoting s = 0)
   \<and> quote_argument (replicate k backslash) =
         [dquote] @ replicate (2 * k) backslash @ [dquote]
   \<and> quote_argument (replicate k backslash @ [dquote] @ t) =
         [dquote] @ replicate (2 * k) backslash @ [backslash, dquote] @ tl (quote_argument t)
   \<and> (c \<noteq> backslash \<and> c \<noteq> dquote \<longrightarrow>
        quote_argument (replicate k backslash @ [c] @ t) =
          [dquote] @ replicate k backslash @ [c] @ tl (quote_argument t))
   \<and> quote_argument (''C:'' @ [backslash] @ ''path with space'' @ [backslash]) =
         [dquote] @ ''C:'' @ [backslash] @ ''path with space'' @ [backslash, backslash]
           @ [dquote]"
proof -
  have a: "needs_quoting s = 1 \<longleftrightarrow>
      s = [] \<or> space \<in> set s \<or> tab \<in> set s \<or> newline \<in> set s \<or> vtab \<in> set s"
    by (auto simp: needs_quoting_def)
  have b: "needs_quoting s \<noteq> 1 \<longrightarrow> needs_quoting s = 0"
    by (simp add: needs_quoting_def)
  have c: "quote_argument (replicate k backslash) =
         [dquote] @ replicate (2 * k) backslash @ [dquote]"
    by (simp add: quote_argument_def quote_loop_end)
  have d: "quote_argument (replicate k backslash @ [dquote] @ t) =
         [dquote] @ replicate (2 * k) backslash @ [backslash, dquote] @ tl (quote_argument t)"
    by (simp add: quote_argument_def quote_loop_dquote)
  have e: "c \<noteq> backslash \<and> c \<noteq> dquote \<longrightarrow>
        quote_argument (replicate k backslash @ [c] @ t) =
          [dquote] @ replicate k backslash @ [c] @ tl (quote_argument t)"
    by (simp add: quote_argument_def quote_loop_other)
  have f: "quote_argument (''C:'' @ [backslash] @ ''path with space'' @ [backslash]) =
         [dquote] @ ''C:'' @ [backslash] @ ''path with space'' @ [backslash, backslash]
           @ [dquote]"
    by code_simp
  from a b c d e f show ?thesis by blast
qed

theorem quoting_rule_witness:
  "(CHR ''x'' \<noteq> backslash \<and> CHR ''x'' \<noteq> dquote)
   \<and> needs_quoting ''y z'' = 1
   \<and> quote_argument (replicate 1 backslash @ [CHR ''x''] @ ''y z'') =
         [dquote] @ replicate 1 backslash @ [CHR ''x''] @ tl (quote_argument ''y z'')"
proof -
  have h: "CHR ''x'' \<noteq> backslash \<and> CHR ''x'' \<noteq> dquote"
    by (simp add: backslash_def dquote_def)
  have g: "space \<in> set ''y z''"
    by (simp add: space_def)
  from h g quoting_rule [where s = "''y z''" and k = 1 and c = "CHR ''x''" and t = "''y z''"]
  show ?thesis by blast
qed


subsection \<open>Splitting a token again\<close>

lemma split_backslashes: "src = replicate (count_backslashes src) backslash @ drop (count_backslashes src) src"
  by (induction src) auto

lemma count_backslashes_drop: "drop (count_backslashes src) src = c # rest \<Longrightarrow> c \<noteq> backslash"
  by (induction src) (auto split: if_splits)

lemma parse_argument_other:
  assumes "c \<noteq> backslash" "c \<noteq> dquote" "inquote \<or> (c \<noteq> space \<and> c \<noteq> tab)"
  shows "parse_argument inquote (replicate k backslash @ c # t) =
           (replicate k backslash @ [c] @ fst (parse_argument inquote t),
            snd (parse_argument inquote t))"
  using assms by (subst parse_argument.simps) (auto split: prod.splits)

lemma parse_argument_escaped_dquote:
  "parse_argument inquote (replicate (2 * k + 1) backslash @ dquote # t) =
     (replicate k backslash @ [dquote] @ fst (parse_argument inquote t),
      snd (parse_argument inquote t))"
  by (subst parse_argument.simps) (simp split: prod.splits)

lemma parse_argument_closing_dquote:
  assumes "t = [] \<or> hd t \<noteq> dquote"
  shows "parse_argument True (replicate (2 * k) backslash @ dquote # t) =
           (replicate k backslash @ fst (parse_argument False t),
            snd (parse_argument False t))"
  using assms by (subst parse_argument.simps) (auto split: prod.splits)

lemma parse_argument_end:
  "parse_argument inquote (replicate k backslash) = (replicate k backslash, [])"
  by (subst parse_argument.simps) simp

lemma parse_quote_loop:
  assumes "rest = [] \<or> hd rest \<noteq> dquote"
  shows "parse_argument True (quote_loop s @ dquote # rest) =
     (s @ fst (parse_argument False rest), snd (parse_argument False rest))"
proof (induction s rule: length_induct)
  case (1 src)
  define k where "k = count_backslashes src"
  have src: "src = replicate k backslash @ drop k src"
    unfolding k_def by (rule split_backslashes)
  show ?case
  proof (cases "drop k src")
    case Nil
    with src have s: "src = replicate k backslash" by simp
    have "quote_loop src = replicate (2 * k) backslash"
      by (subst s) (rule quote_loop_end)
    then show ?thesis
      using parse_argument_closing_dquote [OF assms, of k] s by simp
  next
    case (Cons c t)
    with src have s: "src = replicate k backslash @ c # t" by simp
    have cb: "c \<noteq> backslash"
      using Cons count_backslashes_drop unfolding k_def by blast
    have "length t < length src" by (subst s) simp
    with 1 have IH: "parse_argument True (quote_loop t @ dquote # rest) =
        (t @ fst (parse_argument False rest), snd (parse_argument False rest))"
      by blast
    show ?thesis
    proof (cases "c = dquote")
      case True
      have "quote_loop src = replicate (2 * k + 1) backslash @ dquote # quote_loop t"
        by (subst s) (simp add: True quote_loop_dquote replicate_append_same)
      then show ?thesis
        using parse_argument_escaped_dquote [of True k "quote_loop t @ dquote # rest"] IH s True
        by simp
    next
      case False
      have "quote_loop src = replicate k backslash @ c # quote_loop t"
        by (subst s) (simp add: False cb quote_loop_other)
      then show ?thesis
        using parse_argument_other [of c True k "quote_loop t @ dquote # rest"] IH s False cb
        by simp
    qed
  qed
qed

lemma parse_quote_argument:
  "parse_argument False (quote_argument s) = (s, [])"
proof -
  have "parse_argument False (dquote # quote_loop s @ [dquote]) =
          (fst (parse_argument True (quote_loop s @ [dquote])),
           snd (parse_argument True (quote_loop s @ [dquote])))"
    by (subst parse_argument.simps) (simp split: prod.splits)
  moreover have "parse_argument True (quote_loop s @ [dquote]) =
      (s @ fst (parse_argument False []), snd (parse_argument False []))"
    using parse_quote_loop [of "[]" s] by simp
  moreover have "parse_argument False [] = ([], [])"
    by (subst parse_argument.simps) simp
  ultimately show ?thesis by (simp add: quote_argument_def)
qed

lemma parse_plain:
  "dquote \<notin> set s \<Longrightarrow> space \<notin> set s \<Longrightarrow> tab \<notin> set s \<Longrightarrow>
   parse_argument inquote s = (s, [])"
proof (induction s rule: length_induct)
  case (1 src)
  define k where "k = count_backslashes src"
  have src: "src = replicate k backslash @ drop k src"
    unfolding k_def by (rule split_backslashes)
  show ?case
  proof (cases "drop k src")
    case Nil
    with src have s: "src = replicate k backslash" by simp
    show ?thesis using parse_argument_end [of inquote k] s by simp
  next
    case (Cons c t)
    with src have s: "src = replicate k backslash @ c # t" by simp
    have cb: "c \<noteq> backslash"
      using Cons count_backslashes_drop unfolding k_def by blast
    have mem: "c \<in> set src" "set t \<subseteq> set src" by (subst s, auto)+
    have "length t < length src" by (subst s) simp
    with 1 mem have IH: "parse_argument inquote t = (t, [])" by blast
    from mem 1(2-4) have "c \<noteq> dquote" "c \<noteq> space" "c \<noteq> tab" by auto
    then show ?thesis
      using parse_argument_other [of c inquote k t] IH s cb by simp
  qed
qed

text \<open>
  A token that \<^verbatim>\<open>create_command_line_ex\<close> quotes is split back into the argument, and so
  is a token it copies, when the argument has no double quote.
\<close>

lemma round_trip_when_quoted_or_no_dquote:
  "needs_quoting s \<noteq> 0 \<or> dquote \<notin> set s \<Longrightarrow> parse_argument False (add_token s) = (s, [])"
  by (auto simp: add_token_def parse_quote_argument needs_quoting_def parse_plain
      split: if_splits)

text \<open>
  Claim C8. Splitting the token of an argument gives the argument back, for every
  argument, also one with double quotes. The code does not do this for an argument that
  has a double quote and no white space: \<^verbatim>\<open>needs_quoting\<close> is 0 for \<^verbatim>\<open>a"b\<close>, the
  token is copied as it is, the command line of \<^verbatim>\<open>prog\<close> with this argument is
  \<^verbatim>\<open>prog a"b\<close>, and the token is split into \<^verbatim>\<open>ab\<close>.
\<close>

theorem unquoted_dquote_is_lost:
  "needs_quoting [CHR ''a'', dquote, CHR ''b''] = 0
   \<and> add_token [CHR ''a'', dquote, CHR ''b''] = [CHR ''a'', dquote, CHR ''b'']
   \<and> create_command_line_ex True ''prog'' [[CHR ''a'', dquote, CHR ''b'']] =
        Some (''prog '' @ [CHR ''a'', dquote, CHR ''b''])
   \<and> parse_argument False (add_token [CHR ''a'', dquote, CHR ''b'']) = (''ab'', [])
   \<and> ''ab'' \<noteq> [CHR ''a'', dquote, CHR ''b'']"
  by code_simp


section \<open>Properties of spawning\<close>

lemma open_fds_record_call [simp]: "open_fds (record_call c w) = open_fds w"
  by (simp add: record_call_def)

lemma open_fds_sys_close [simp]: "open_fds (sys_close fd w) = open_fds w - {#fd#}"
  by (simp add: sys_close_def)

lemma open_fds_sys_pipe [simp]:
  "open_fds (sys_pipe (PipeOk rd wr) w) = open_fds w + {#rd, wr#}"
  "open_fds (sys_pipe PipeFailed w) = open_fds w"
  by (simp_all add: sys_pipe_def)

lemma open_fds_misc [simp]:
  "open_fds (sys_perror m w) = open_fds w"
  "open_fds (sys_fork r w) = open_fds w"
  "open_fds (sys_fcntl fd w) = open_fds w"
  "open_fds (sys_malloc ok w) = open_fds w"
  by (simp_all add: sys_perror_def sys_fork_def sys_fcntl_def sys_malloc_def split: fork_result.splits)

lemma start_process_malloc_failure_closes:
  "start_process cmd args (PipeOk a b) (PipeOk c d) (PipeOk e f) (ForkParent p) False w = (r, w')
   \<Longrightarrow> r = None \<and> open_fds w' = open_fds w"
  by (auto simp: start_process_def Let_def)

lemma open_handles_simps [simp]:
  "open_handles (record_call_win c w) = open_handles w"
  "open_handles (CloseHandle h w) = open_handles w - {#h#}"
  "open_handles (CreatePipe (PipeOk rd wr) w) = open_handles w + {#rd, wr#}"
  "open_handles (CreatePipe PipeFailed w) = open_handles w"
  "open_handles (malloc_win ok w) = open_handles w"
  "open_handles (free_win w) = open_handles w"
  "open_handles (CreateProcess cl CreateProcessFailed w) = open_handles w"
  "open_handles (CreateProcess cl (CreateProcessOk hp ht p) w) = open_handles w + {#hp, ht#}"
  by (simp_all add: record_call_win_def CloseHandle_def CreatePipe_def malloc_win_def
      free_win_def CreateProcess_def)

lemma heap_simps [simp]:
  "heap_blocks_win (record_call_win c w) = heap_blocks_win w"
  "heap_blocks_win (CloseHandle h w) = heap_blocks_win w"
  "heap_blocks_win (CreatePipe pr w) = heap_blocks_win w"
  "heap_blocks_win (malloc_win ok w) = (if ok then heap_blocks_win w + 1 else heap_blocks_win w)"
  "heap_blocks_win (free_win w) = heap_blocks_win w - 1"
  "heap_blocks_win (CreateProcess cl cr w) = heap_blocks_win w"
  by (simp_all add: record_call_win_def CloseHandle_def CreatePipe_def malloc_win_def
      free_win_def CreateProcess_def split: pipe_result.splits create_process_result.splits)

lemma shi_chain_fields [simp]:
  "open_handles (snd (SetHandleInformation_chain hs w)) = open_handles w"
  "heap_blocks_win (snd (SetHandleInformation_chain hs w)) = heap_blocks_win w"
  by (induction hs w rule: SetHandleInformation_chain.induct) auto

lemma shi_chain_result:
  "SetHandleInformation_chain hs w = (b, w') \<Longrightarrow>
   open_handles w' = open_handles w \<and> heap_blocks_win w' = heap_blocks_win w"
  using shi_chain_fields [of hs w] by simp

text \<open>
  On the Windows backend every way of failing gives back the handles and the heap blocks
  the call had at its start.
\<close>

lemma start_process_win_no_leak:
  assumes "start_process_win cmd args p1 p2 p3 s1 s2 s3 cm cr m w = (None, w')"
  shows "open_handles w' = open_handles w \<and> heap_blocks_win w' = heap_blocks_win w"
  using assms
  by (auto simp: start_process_win_def Let_def create_command_line_ex_def
      split: pipe_result.splits prod.splits bool.splits create_process_result.splits if_splits
      dest!: shi_chain_result)

text \<open>
  The POSIX backend closes nothing when \<^verbatim>\<open>fork\<close> fails: the six descriptors of the three
  pipes stay open.
\<close>

lemma start_process_fork_failure_leaks:
  "start_process cmd args (PipeOk a b) (PipeOk c d) (PipeOk e f) ForkFailed m w = (r, w')
   \<Longrightarrow> r = None \<and> open_fds w' = open_fds w + {#a, b, c, d, e, f#}"
  by (auto simp: start_process_def Let_def)

text \<open>
  Claim C2. When \<^verbatim>\<open>start_process\<close> fails it returns \<^verbatim>\<open>NULL\<close> and has closed every
  descriptor it opened. The POSIX backend does not: when the first \<^verbatim>\<open>pipe\<close> succeeds
  with the descriptors 3 and 4 and the second \<^verbatim>\<open>pipe\<close> fails, the call makes the two
  \<^verbatim>\<open>pipe\<close> calls and \<^verbatim>\<open>perror\<close>, closes nothing and returns \<^verbatim>\<open>NULL\<close> with 3 and 4
  still open.
\<close>

theorem start_process_leaks_first_pipe:
  "fst (start_process ''cat'' [''cat''] (PipeOk 3 4) PipeFailed PipeFailed ForkFailed True
          \<lparr>open_fds = {#0, 1, 2#}, children = Map.empty, heap_blocks = 0, calls = []\<rparr>) = None
   \<and> open_fds (snd (start_process ''cat'' [''cat''] (PipeOk 3 4) PipeFailed PipeFailed
          ForkFailed True
          \<lparr>open_fds = {#0, 1, 2#}, children = Map.empty, heap_blocks = 0, calls = []\<rparr>))
       = {#0, 1, 2, 3, 4#}
   \<and> calls (snd (start_process ''cat'' [''cat''] (PipeOk 3 4) PipeFailed PipeFailed
          ForkFailed True
          \<lparr>open_fds = {#0, 1, 2#}, children = Map.empty, heap_blocks = 0, calls = []\<rparr>))
       = [SysPipe, SysPipe, SysPerror ''pipe'']"
  by (simp add: start_process_def sys_pipe_def sys_perror_def record_call_def)


section \<open>Properties of teardown and of the liveness probe\<close>

lemma calls_simps [simp]:
  "calls (record_call c w) = calls w @ [c]"
  "calls (sys_close fd w) = calls w @ [SysClose fd]"
  "calls (sys_free w) = calls w @ [SysFree]"
  by (simp_all add: record_call_def sys_close_def sys_free_def)

lemma children_simps [simp]:
  "children (record_call c w) = children w"
  "children (sys_close fd w) = children w"
  "children (sys_free w) = children w"
  by (simp_all add: record_call_def sys_close_def sys_free_def)

lemma calls_win_simps [simp]:
  "calls_win (record_call_win c w) = calls_win w @ [c]"
  "calls_win (CloseHandle h w) = calls_win w @ [WinCloseHandle h]"
  "calls_win (free_win w) = calls_win w @ [WinFree]"
  "calls_win (TerminateProcess h code w) = calls_win w @ [WinTerminateProcess h code]"
  "calls_win (WaitForSingleObject h ms w) = calls_win w @ [WinWaitForSingleObject h ms]"
  by (simp_all add: record_call_win_def CloseHandle_def free_win_def TerminateProcess_def
      WaitForSingleObject_def)




lemma is_running_result:
  "0 < pid h \<Longrightarrow>
   fst (is_running (Some h) w) = (if children w (pid h) = Some Running then 1 else 0)"
  by (simp add: is_running_def sys_waitpid_nohang_def Let_def split: option.splits status.splits)

lemma is_running_children:
  "children (snd (is_running (Some h) w)) =
     (case children w (pid h) of
        Some (Exited st) \<Rightarrow> (children w)(pid h := None)
      | _ \<Rightarrow> children w)"
  by (simp add: is_running_def sys_waitpid_nohang_def Let_def split: option.splits status.splits)



lemma children_spawn_simps [simp]:
  "children (sys_pipe r w) = children w"
  "children (sys_perror msg w) = children w"
  "children (sys_fcntl fd w) = children w"
  "children (sys_malloc ok w) = children w"
  "children (sys_fork ForkFailed w) = children w"
  "children (sys_fork (ForkParent q) w) = (children w)(q \<mapsto> Running)"
  by (simp_all add: sys_pipe_def sys_perror_def sys_fcntl_def sys_malloc_def sys_fork_def
      split: pipe_result.splits)





lemma processes_record_call_win [simp]: "processes (record_call_win c w) = processes w"
  by (simp add: record_call_win_def)


lemma is_running_win_processes:
  "processes (snd (is_running_win handle w)) = processes w"
  by (simp add: is_running_win_def GetExitCodeProcess_def split: option.splits status.splits)

lemma is_running_win_open_handles:
  "open_handles (snd (is_running_win handle w)) = open_handles w"
  by (simp add: is_running_win_def GetExitCodeProcess_def record_call_win_def split: option.splits status.splits)



lemma processes_spawn_simps [simp]:
  "processes (CloseHandle h w) = processes w"
  "processes (CreatePipe r w) = processes w"
  "processes (malloc_win ok w) = processes w"
  "processes (free_win w) = processes w"
  "processes (CreateProcess cl CreateProcessFailed w) = processes w"
  "processes (CreateProcess cl (CreateProcessOk hq ht q) w) = (processes w)(hq \<mapsto> Running)"
  by (simp_all add: CloseHandle_def CreatePipe_def malloc_win_def free_win_def CreateProcess_def
      split: pipe_result.splits)









lemma start_process_child_running:
  "start_process cmd args p1 p2 p3 forked m w = (Some h, w') \<Longrightarrow>
   children w' (pid h) = Some Running \<and> forked = ForkParent (pid h)"
  by (auto simp: start_process_def Let_def sys_fork_def sys_malloc_def sys_fcntl_def
      split: pipe_result.splits fork_result.splits if_splits)






lemma is_running_open_fds:
  "open_fds (snd (is_running handle w)) = open_fds w
   \<and> heap_blocks (snd (is_running handle w)) = heap_blocks w"
  by (simp add: is_running_def sys_waitpid_nohang_def record_call_def Let_def
      split: option.splits status.splits)

lemma is_running_win_heap:
  "heap_blocks_win (snd (is_running_win handle w)) = heap_blocks_win w"
  by (simp add: is_running_win_def GetExitCodeProcess_def record_call_win_def
      split: option.splits status.splits)

lemma close_process_after_reap:
  "children w (pid h) = None \<Longrightarrow>
   \<not> blocked (close_process (Some h) child_exit w)
   \<and> children (world_of (close_process (Some h) child_exit w)) = children w"
  by (simp add: close_process_def sys_waitpid_wait_def Let_def)

text \<open>
  Claim C6, as stated: \<^verbatim>\<open>is_running\<close> of the POSIX backend does not consume the exit
  status of the child, and a later \<^verbatim>\<open>close_process\<close> can still reap it. It does consume
  it: for a child that has exited, the probe removes the child from the table of children,
  and the \<^verbatim>\<open>waitpid\<close> of \<^verbatim>\<open>close_process\<close>, which would have returned the pid, returns
  \<open>-1\<close> after the probe.
\<close>

theorem is_running_reaps_exited_child:
  "children world_exited (pid handle0) = Some (Exited 0)
   \<and> children (snd (is_running (Some handle0) world_exited)) (pid handle0) = None
   \<and> fst (world_of (sys_waitpid_wait (pid handle0) None world_exited)) = pid handle0
   \<and> fst (world_of (sys_waitpid_wait (pid handle0) None
             (snd (is_running (Some handle0) world_exited)))) = -1"
  by (simp add: world_exited_def handle0_def is_running_def sys_waitpid_nohang_def
      sys_waitpid_wait_def record_call_def Let_def)

text \<open>
  Claim C6, amended. \<^verbatim>\<open>is_running\<close> returns without blocking, does not touch the handle
  and changes no descriptor and no heap block. On the Windows backend it changes no
  process state either. On the POSIX backend it leaves the children as they are unless the
  child has exited; for a child that has exited the first probe returns 0 and reaps the
  child, a second probe changes nothing more, and \<^verbatim>\<open>close_process\<close> after it returns
  without blocking and finds nothing to reap.
\<close>

theorem is_running_effects:
  assumes "0 < pid h"
  shows "open_fds (snd (is_running handle w)) = open_fds w
       \<and> heap_blocks (snd (is_running handle w)) = heap_blocks w
       \<and> ((\<forall>st. children w (pid h) \<noteq> Some (Exited st)) \<longrightarrow>
            children (snd (is_running (Some h) w)) = children w)
       \<and> (children w (pid h) = Some (Exited st) \<longrightarrow>
            fst (is_running (Some h) w) = 0
            \<and> children (snd (is_running (Some h) w)) = (children w)(pid h := None)
            \<and> children (snd (is_running (Some h) (snd (is_running (Some h) w)))) =
                children (snd (is_running (Some h) w))
            \<and> \<not> blocked (close_process (Some h) child_exit (snd (is_running (Some h) w)))
            \<and> children (world_of (close_process (Some h) child_exit
                  (snd (is_running (Some h) w)))) = children (snd (is_running (Some h) w)))
       \<and> open_handles (snd (is_running_win handle_win ww)) = open_handles ww
       \<and> processes (snd (is_running_win handle_win ww)) = processes ww
       \<and> heap_blocks_win (snd (is_running_win handle_win ww)) = heap_blocks_win ww"
proof -
  have a: "(\<forall>st. children w (pid h) \<noteq> Some (Exited st)) \<longrightarrow>
            children (snd (is_running (Some h) w)) = children w"
    by (simp add: is_running_children split: option.splits status.splits)
  have b: "children w (pid h) = Some (Exited st) \<longrightarrow>
            fst (is_running (Some h) w) = 0
            \<and> children (snd (is_running (Some h) w)) = (children w)(pid h := None)
            \<and> children (snd (is_running (Some h) (snd (is_running (Some h) w)))) =
                children (snd (is_running (Some h) w))
            \<and> \<not> blocked (close_process (Some h) child_exit (snd (is_running (Some h) w)))
            \<and> children (world_of (close_process (Some h) child_exit
                  (snd (is_running (Some h) w)))) = children (snd (is_running (Some h) w))"
  proof
    assume e: "children w (pid h) = Some (Exited st)"
    have r: "fst (is_running (Some h) w) = 0"
      using is_running_result [OF assms, of w] e by simp
    have c1: "children (snd (is_running (Some h) w)) = (children w)(pid h := None)"
      using e by (simp add: is_running_children)
    then have n: "children (snd (is_running (Some h) w)) (pid h) = None" by simp
    have c2: "children (snd (is_running (Some h) (snd (is_running (Some h) w)))) =
                children (snd (is_running (Some h) w))"
      using n by (simp add: is_running_children [of h "snd (is_running (Some h) w)"])
    from r c1 c2 close_process_after_reap [OF n, of child_exit]
    show "fst (is_running (Some h) w) = 0
            \<and> children (snd (is_running (Some h) w)) = (children w)(pid h := None)
            \<and> children (snd (is_running (Some h) (snd (is_running (Some h) w)))) =
                children (snd (is_running (Some h) w))
            \<and> \<not> blocked (close_process (Some h) child_exit (snd (is_running (Some h) w)))
            \<and> children (world_of (close_process (Some h) child_exit
                  (snd (is_running (Some h) w)))) = children (snd (is_running (Some h) w))"
      by blast
  qed
  from a b is_running_open_fds [of handle w] is_running_win_open_handles [of handle_win ww]
    is_running_win_processes [of handle_win ww] is_running_win_heap [of handle_win ww]
  show ?thesis by blast
qed

theorem is_running_effects_witness:
  "0 < pid handle0
   \<and> (\<forall>st. children world0 (pid handle0) \<noteq> Some (Exited st))
   \<and> children (snd (is_running (Some handle0) world0)) = children world0
   \<and> children world_exited (pid handle0) = Some (Exited 0)
   \<and> fst (is_running (Some handle0) world_exited) = 0
   \<and> children (snd (is_running (Some handle0) world_exited)) =
       (children world_exited)(pid handle0 := None)"
proof -
  have p: "0 < pid handle0" by (simp add: handle0_def)
  have r: "\<forall>st. children world0 (pid handle0) \<noteq> Some (Exited st)"
    by (simp add: handle0_def world0_def)
  have e: "children world_exited (pid handle0) = Some (Exited 0)"
    by (simp add: handle0_def world_exited_def)
  from p r e is_running_effects [OF p, where w = world0]
    is_running_effects [OF p, where w = world_exited and st = 0]
  show ?thesis by blast
qed



section \<open>Properties of writing\<close>

lemma bytes_written_append:
  "bytes_written fd (xs @ ys) = bytes_written fd xs @ bytes_written fd ys"
  by (induction fd xs rule: bytes_written.induct) auto

lemma take_drop_chunk: "take n (drop t xs) @ drop (t + n) xs = drop t xs"
  by (metis append_take_drop_id drop_drop add.commute)

lemma write_loop_result:
  "0 \<le> tot \<Longrightarrow> tot \<le> int (length data) \<Longrightarrow>
   write_loop fd data tot answers w = Some (r, w') \<Longrightarrow>
   r = -1 \<or>
   (r = int (length data)
    \<and> bytes_written fd (calls w') = bytes_written fd (calls w) @ drop (nat tot) data
    \<and> last (calls w') = SysFsync fd)"
proof (induction answers arbitrary: tot w)
  case Nil
  then show ?case
    by (subst (asm) write_loop.simps) (auto simp: bytes_written_append split: if_splits)
next
  case (Cons a later)
  show ?case
  proof (cases "tot < int (length data)")
    case False
    with Cons.prems show ?thesis
      by (subst (asm) write_loop.simps) (auto simp: bytes_written_append)
  next
    case True
    show ?thesis
    proof (cases a)
      case (Accepted k)
      define written where "written = min (int k) (int (length data) - tot)"
      define chunk where "chunk = take (nat written) (drop (nat tot) data)"
      have w0: "0 \<le> written" "tot + written \<le> int (length data)"
        using True by (auto simp: written_def)
      have step: "write_loop fd data (tot + written) later (record_call (SysWrite fd chunk) w)
                    = Some (r, w')"
        using Cons.prems(3) True Accepted
        by (subst (asm) write_loop.simps) (simp add: written_def chunk_def Let_def)
      have t: "0 \<le> tot + written" using Cons.prems(1) w0 by simp
      from Cons.IH [OF t w0(2) step]
      show ?thesis
      proof
        assume "r = -1" then show ?thesis by simp
      next
        assume h: "r = int (length data)
          \<and> bytes_written fd (calls w') =
              bytes_written fd (calls (record_call (SysWrite fd chunk) w)) @
              drop (nat (tot + written)) data
          \<and> last (calls w') = SysFsync fd"
        have n: "nat (tot + written) = nat tot + nat written"
          using Cons.prems(1) w0 by (simp add: nat_add_distrib)
        have "chunk @ drop (nat (tot + written)) data = drop (nat tot) data"
          unfolding chunk_def n by (rule take_drop_chunk)
        with h show ?thesis by (simp add: bytes_written_append)
      qed
    next
      case Interrupted
      have step: "write_loop fd data tot later (record_call (SysWriteFailed fd) w) = Some (r, w')"
        using Cons.prems(3) True Interrupted by (subst (asm) write_loop.simps) simp
      from Cons.IH [OF Cons.prems(1,2) step] show ?thesis by (simp add: bytes_written_append)
    next
      case WriteFailed
      then show ?thesis using Cons.prems(3) True by (subst (asm) write_loop.simps) simp
    qed
  qed
qed

lemma write_loop_returns:
  "WriteFailed \<in> set answers \<or> int (length data) \<le> tot + int (accepted_total answers) \<Longrightarrow>
   \<exists>r w'. write_loop fd data tot answers w = Some (r, w')"
proof (induction answers arbitrary: tot w)
  case Nil
  then show ?case by (subst write_loop.simps) simp
next
  case (Cons a later)
  show ?case
  proof (cases "tot < int (length data)")
    case False
    then show ?thesis by (subst write_loop.simps) simp
  next
    case True
    show ?thesis
    proof (cases a)
      case (Accepted k)
      define written where "written = min (int k) (int (length data) - tot)"
      have "WriteFailed \<in> set later
            \<or> int (length data) \<le> (tot + written) + int (accepted_total later)"
        using Cons.prems Accepted True by (auto simp: written_def min_def)
      from Cons.IH [OF this] show ?thesis
        using True Accepted by (subst write_loop.simps) (simp add: written_def Let_def)
    next
      case Interrupted
      have "WriteFailed \<in> set later \<or> int (length data) \<le> tot + int (accepted_total later)"
        using Cons.prems Interrupted by auto
      from Cons.IH [OF this] show ?thesis
        using True Interrupted by (subst write_loop.simps) simp
    next
      case WriteFailed
      then show ?thesis using True by (subst write_loop.simps) simp
    qed
  qed
qed

lemma write_loop_interrupted:
  "write_loop fd data tot (Interrupted # answers) w =
     (if tot < int (length data)
      then write_loop fd data tot answers (record_call (SysWriteFailed fd) w)
      else Some (tot, record_call (SysFsync fd) w))"
  by (subst write_loop.simps) simp

lemma write_loop_value_independent:
  "map_option fst (write_loop fd data tot answers w) =
   map_option fst (write_loop fd data tot answers w2)"
proof (induction answers arbitrary: tot w w2)
  case Nil
  show ?case by (subst write_loop.simps, subst (2) write_loop.simps) simp
next
  case (Cons a later)
  show ?case
    by (subst write_loop.simps, subst (2) write_loop.simps)
       (cases a; simp add: Let_def Cons.IH)
qed

lemma write_loop_retry:
  "map_option fst (write_loop fd data tot (Interrupted # answers) w) =
   map_option fst (write_loop fd data tot answers w)"
proof (cases "tot < int (length data)")
  case True
  then show ?thesis
    using write_loop_value_independent [of fd data tot answers "record_call (SysWriteFailed fd) w" w]
    by (simp add: write_loop_interrupted)
next
  case False
  then show ?thesis
    by (subst write_loop.simps, subst (2) write_loop.simps) simp
qed

lemma write_loop_value:
  "0 \<le> tot \<Longrightarrow> tot \<le> int (length data) \<Longrightarrow>
   map_option fst (write_loop fd data tot answers w) =
     (if int (length data) \<le> tot + int (accepted_total (takeWhile (\<lambda>a. a \<noteq> WriteFailed) answers))
      then Some (int (length data))
      else if WriteFailed \<in> set answers then Some (- 1) else None)"
proof (induction answers arbitrary: tot w)
  case Nil
  then show ?case by (subst write_loop.simps) auto
next
  case (Cons a later)
  show ?case
  proof (cases "tot < int (length data)")
    case False
    with Cons.prems show ?thesis by (subst write_loop.simps) auto
  next
    case True
    show ?thesis
    proof (cases a)
      case (Accepted k)
      define written where "written = min (int k) (int (length data) - tot)"
      have w0: "0 \<le> tot + written" "tot + written \<le> int (length data)"
        using True Cons.prems(1) by (auto simp: written_def)
      have eq: "(int (length data) \<le> tot + written
                   + int (accepted_total (takeWhile (\<lambda>a. a \<noteq> WriteFailed) later)))
                = (int (length data) \<le> tot
                   + int (accepted_total (takeWhile (\<lambda>a. a \<noteq> WriteFailed) (a # later))))"
        using Accepted True by (auto simp: written_def min_def)
      have "map_option fst (write_loop fd data tot (a # later) w) =
            map_option fst (write_loop fd data (tot + written) later
              (record_call (SysWrite fd (take (nat written) (drop (nat tot) data))) w))"
        using True Accepted by (subst write_loop.simps) (simp add: written_def Let_def)
      also have "\<dots> =
        (if int (length data) \<le> tot + written
              + int (accepted_total (takeWhile (\<lambda>a. a \<noteq> WriteFailed) later))
         then Some (int (length data))
         else if WriteFailed \<in> set later then Some (- 1) else None)"
        by (rule Cons.IH [OF w0])
      finally show ?thesis using eq Accepted by simp
    next
      case Interrupted
      have "map_option fst (write_loop fd data tot (a # later) w) =
            map_option fst (write_loop fd data tot later (record_call (SysWriteFailed fd) w))"
        using True Interrupted by (subst write_loop.simps) simp
      also note Cons.IH [OF Cons.prems]
      finally show ?thesis using Interrupted by simp
    next
      case WriteFailed
      then show ?thesis using True by (subst write_loop.simps) simp
    qed
  qed
qed

lemma write_loop_failed_prefix:
  "0 \<le> tot \<Longrightarrow> tot \<le> int (length data) \<Longrightarrow>
   write_loop fd data tot answers w = Some (- 1, w') \<Longrightarrow>
   bytes_written fd (calls w') =
     bytes_written fd (calls w)
       @ take (accepted_total (takeWhile (\<lambda>a. a \<noteq> WriteFailed) answers)) (drop (nat tot) data)
   \<and> last (calls w') = SysWriteFailed fd"
proof (induction answers arbitrary: tot w)
  case Nil
  then show ?case by (subst (asm) write_loop.simps) (auto split: if_splits)
next
  case (Cons a later)
  show ?case
  proof (cases "tot < int (length data)")
    case False
    with Cons.prems show ?thesis by (subst (asm) write_loop.simps) auto
  next
    case True
    show ?thesis
    proof (cases a)
      case (Accepted k)
      define written where "written = min (int k) (int (length data) - tot)"
      define chunk where "chunk = take (nat written) (drop (nat tot) data)"
      have w0: "0 \<le> written" "0 \<le> tot + written" "tot + written \<le> int (length data)"
        using True Cons.prems(1) by (auto simp: written_def)
      have step: "write_loop fd data (tot + written) later (record_call (SysWrite fd chunk) w)
                    = Some (- 1, w')"
        using Cons.prems(3) True Accepted
        by (subst (asm) write_loop.simps) (simp add: written_def chunk_def Let_def)
      have fin: "tot + written < int (length data)"
      proof (rule ccontr)
        assume "\<not> tot + written < int (length data)"
        then have "write_loop fd data (tot + written) later (record_call (SysWrite fd chunk) w)
                     = Some (tot + written, record_call (SysFsync fd)
                               (record_call (SysWrite fd chunk) w))"
          by (subst write_loop.simps) simp
        with step w0 show False by simp
      qed
      have wk: "written = int k"
        using fin unfolding written_def by (cases "int k \<le> int (length data) - tot") auto
      from Cons.IH [OF w0(2,3) step]
      have ih: "bytes_written fd (calls w') =
                  bytes_written fd (calls (record_call (SysWrite fd chunk) w))
                    @ take (accepted_total (takeWhile (\<lambda>a. a \<noteq> WriteFailed) later))
                        (drop (nat (tot + written)) data)"
        and l: "last (calls w') = SysWriteFailed fd" by simp_all
      have n: "nat (tot + int k) = nat tot + k"
        using Cons.prems(1) by (simp add: nat_add_distrib)
      have "chunk @ take m (drop (nat (tot + written)) data) = take (k + m) (drop (nat tot) data)"
        for m
        unfolding chunk_def wk n
        by (simp add: take_add add.commute)
      with ih l show ?thesis using Accepted by (simp add: bytes_written_append)
    next
      case Interrupted
      have step: "write_loop fd data tot later (record_call (SysWriteFailed fd) w) = Some (- 1, w')"
        using Cons.prems(3) True Interrupted by (subst (asm) write_loop.simps) simp
      from Cons.IH [OF Cons.prems(1,2) step] show ?thesis
        using Interrupted by (simp add: bytes_written_append)
    next
      case WriteFailed
      then show ?thesis
        using Cons.prems(3) True
        by (subst (asm) write_loop.simps) (auto simp: bytes_written_append)
    qed
  qed
qed

lemma write_to_process_win_value:
  "input_fd_win hw \<noteq> INVALID_HANDLE_VALUE \<Longrightarrow>
   fst (write_to_process_win (Some hw) data written ww) =
     (case written of
        WriteFileFailed err \<Rightarrow> if err = ERROR_NO_DATA \<or> err = ERROR_BROKEN_PIPE then 0 else -1
      | WriteFileOk bytesWritten \<Rightarrow> sint bytesWritten)"
  by (simp add: write_to_process_win_def Let_def split: write_file_result.splits)

lemma write_to_process_win_calls:
  "input_fd_win hw \<noteq> INVALID_HANDLE_VALUE \<Longrightarrow>
   calls_win (snd (write_to_process_win (Some hw) data written ww)) =
     calls_win ww @ [WinWriteFile (input_fd_win hw) data] @
       (case written of
          WriteFileFailed err \<Rightarrow> []
        | WriteFileOk bytesWritten \<Rightarrow> [WinFlushFileBuffers (input_fd_win hw)])"
  by (simp add: write_to_process_win_def Let_def record_call_win_def
      split: write_file_result.splits)

text \<open>
  Claim C3, as stated: on a handle with a valid input endpoint \<^verbatim>\<open>write_to_process\<close>
  returns \<open>-1\<close> or the full length. The Windows backend returns 0 for a buffer of five
  bytes when \<^verbatim>\<open>WriteFile\<close> fails with \<^verbatim>\<open>ERROR_BROKEN_PIPE\<close>.
\<close>

theorem write_to_process_win_closed_pipe:
  "input_fd_win handle0_win \<noteq> INVALID_HANDLE_VALUE
   \<and> fst (write_to_process_win (Some handle0_win) ''hello'' (WriteFileFailed ERROR_BROKEN_PIPE)
            world0_win) = 0
   \<and> (0::int) \<noteq> - 1
   \<and> (0::int) \<noteq> int (length ''hello'')"
  by (simp add: write_to_process_win_def handle0_win_def INVALID_HANDLE_VALUE_def
      ERROR_BROKEN_PIPE_def ERROR_NO_DATA_def Let_def)

text \<open>
  Claim C3, amended. On the POSIX backend, on a handle with a valid input endpoint, the
  value of \<^verbatim>\<open>write_to_process\<close> is fixed by the answers of the kernel to the successive
  \<^verbatim>\<open>write\<close> calls: it is the length of the buffer when the answers before the first
  hard failure take at least that many bytes, it is \<open>-1\<close> when a hard failure comes
  before that, and otherwise the call does not return. When the call returns the length,
  the \<^verbatim>\<open>write\<close> calls have put the bytes of the buffer into the descriptor, in order,
  and the last call is \<^verbatim>\<open>fsync\<close>; when it returns \<open>-1\<close>, the bytes taken before the
  failure have been written and the failed \<^verbatim>\<open>write\<close> is the last call. An interrupted
  \<^verbatim>\<open>write\<close> is tried again and does not change the value. On the Windows backend there
  is one \<^verbatim>\<open>WriteFile\<close> call and no retry: the value is 0 when the call fails with
  \<^verbatim>\<open>ERROR_NO_DATA\<close> or \<^verbatim>\<open>ERROR_BROKEN_PIPE\<close>, \<open>-1\<close> when it fails otherwise, and else
  the number of bytes that \<^verbatim>\<open>WriteFile\<close> reported, after \<^verbatim>\<open>FlushFileBuffers\<close>.
\<close>

theorem write_to_process_result:
  assumes "input_fd h \<ge> 0" and "input_fd_win hw \<noteq> INVALID_HANDLE_VALUE"
  shows "(write_to_process (Some h) data answers w = Some (r, w') \<longrightarrow>
            r = -1 \<or>
            (r = int (length data)
             \<and> bytes_written (input_fd h) (calls w') =
                 bytes_written (input_fd h) (calls w) @ data
             \<and> last (calls w') = SysFsync (input_fd h)))
       \<and> (WriteFailed \<in> set answers \<or> length data \<le> accepted_total answers \<longrightarrow>
            (\<exists>r w'. write_to_process (Some h) data answers w = Some (r, w')))
       \<and> map_option fst (write_to_process (Some h) data (Interrupted # answers) w) =
           map_option fst (write_to_process (Some h) data answers w)
       \<and> map_option fst (write_to_process (Some h) data answers w) =
           (if length data \<le> accepted_total (takeWhile (\<lambda>a. a \<noteq> WriteFailed) answers)
            then Some (int (length data))
            else if WriteFailed \<in> set answers then Some (- 1) else None)
       \<and> (write_to_process (Some h) data answers w = Some (- 1, w') \<longrightarrow>
            bytes_written (input_fd h) (calls w') =
              bytes_written (input_fd h) (calls w)
                @ take (accepted_total (takeWhile (\<lambda>a. a \<noteq> WriteFailed) answers)) data
            \<and> last (calls w') = SysWriteFailed (input_fd h))
       \<and> fst (write_to_process_win (Some hw) data written ww) =
           (case written of
              WriteFileFailed err \<Rightarrow>
                if err = ERROR_NO_DATA \<or> err = ERROR_BROKEN_PIPE then 0 else -1
            | WriteFileOk bytesWritten \<Rightarrow> sint bytesWritten)
       \<and> calls_win (snd (write_to_process_win (Some hw) data written ww)) =
           calls_win ww @ [WinWriteFile (input_fd_win hw) data] @
             (case written of
                WriteFileFailed err \<Rightarrow> []
              | WriteFileOk bytesWritten \<Rightarrow> [WinFlushFileBuffers (input_fd_win hw)])"
proof -
  have v: "write_to_process (Some h) data answers w = write_loop (input_fd h) data 0 answers w"
    for answers
    using assms(1) by (simp add: write_to_process_def)
  have a: "write_to_process (Some h) data answers w = Some (r, w') \<longrightarrow>
            r = -1 \<or>
            (r = int (length data)
             \<and> bytes_written (input_fd h) (calls w') =
                 bytes_written (input_fd h) (calls w) @ data
             \<and> last (calls w') = SysFsync (input_fd h))"
    using write_loop_result [of 0 data "input_fd h" answers w r w'] by (simp add: v)
  have b: "WriteFailed \<in> set answers \<or> length data \<le> accepted_total answers \<longrightarrow>
            (\<exists>r w'. write_to_process (Some h) data answers w = Some (r, w'))"
    using write_loop_returns [of answers data 0 "input_fd h" w] by (simp add: v)
  have c: "map_option fst (write_to_process (Some h) data (Interrupted # answers) w) =
           map_option fst (write_to_process (Some h) data answers w)"
    using write_loop_retry [of "input_fd h" data 0 answers w] by (simp add: v)
  have d: "map_option fst (write_to_process (Some h) data answers w) =
           (if length data \<le> accepted_total (takeWhile (\<lambda>a. a \<noteq> WriteFailed) answers)
            then Some (int (length data))
            else if WriteFailed \<in> set answers then Some (- 1) else None)"
    using write_loop_value [of 0 data "input_fd h" answers w] by (simp add: v)
  have e: "write_to_process (Some h) data answers w = Some (- 1, w') \<longrightarrow>
            bytes_written (input_fd h) (calls w') =
              bytes_written (input_fd h) (calls w)
                @ take (accepted_total (takeWhile (\<lambda>a. a \<noteq> WriteFailed) answers)) data
            \<and> last (calls w') = SysWriteFailed (input_fd h)"
    using write_loop_failed_prefix [of 0 data "input_fd h" answers w w'] by (simp add: v)
  note f = write_to_process_win_value [OF assms(2), of data written ww]
    write_to_process_win_calls [OF assms(2), of data written ww]
  show ?thesis
    apply (intro conjI)
           apply (rule a)
          apply (rule b)
         apply (rule c)
        apply (rule d)
       apply (rule e)
      apply (rule f(1))
     apply (rule f(2))
    done
qed

lemma write_example:
  "write_to_process (Some handle0) ''hello'' [Accepted 2, Interrupted, Accepted 9] world0 =
     Some (5, world0\<lparr>calls := [SysWrite 4 ''he'', SysWriteFailed 4, SysWrite 4 ''llo'',
                                SysFsync 4]\<rparr>)"
  by (simp add: write_to_process_def handle0_def world0_def write_loop.simps record_call_def
      Let_def)

theorem write_to_process_result_witness:
  "input_fd handle0 \<ge> 0 \<and> input_fd_win handle0_win \<noteq> INVALID_HANDLE_VALUE
   \<and> length ''hello'' \<le> accepted_total [Accepted 2, Interrupted, Accepted 9]
   \<and> write_to_process (Some handle0) ''hello'' [Accepted 2, Interrupted, Accepted 9] world0 =
       Some (5, world0\<lparr>calls := [SysWrite 4 ''he'', SysWriteFailed 4, SysWrite 4 ''llo'',
                                  SysFsync 4]\<rparr>)
   \<and> bytes_written (input_fd handle0)
        (calls (world0\<lparr>calls := [SysWrite 4 ''he'', SysWriteFailed 4, SysWrite 4 ''llo'',
                                  SysFsync 4]\<rparr>)) =
       bytes_written (input_fd handle0) (calls world0) @ ''hello''
   \<and> fst (write_to_process_win (Some handle0_win) ''hello'' (WriteFileOk 5) world0_win) = 5
   \<and> map_option fst
        (write_to_process (Some handle0) ''hello'' [Accepted 2, WriteFailed, Accepted 9] world0) =
       Some (- 1)
   \<and> map_option fst (write_to_process (Some handle0) ''hello'' [Accepted 2, Interrupted] world0) =
       None"
proof -
  have p: "input_fd handle0 \<ge> 0" by (simp add: handle0_def)
  have q: "input_fd_win handle0_win \<noteq> INVALID_HANDLE_VALUE"
    by (simp add: handle0_win_def INVALID_HANDLE_VALUE_def)
  have l: "length ''hello'' \<le> accepted_total [Accepted 2, Interrupted, Accepted 9]" by simp
  note t = write_to_process_result [OF p q, of "''hello''" "[Accepted 2, Interrupted, Accepted 9]"
      world0 5 "world0\<lparr>calls := [SysWrite 4 ''he'', SysWriteFailed 4, SysWrite 4 ''llo'',
                                  SysFsync 4]\<rparr>" "WriteFileOk 5" world0_win]
  have ne: "(5::int) \<noteq> - 1" by simp
  from t write_example ne have
    "bytes_written (input_fd handle0)
        (calls (world0\<lparr>calls := [SysWrite 4 ''he'', SysWriteFailed 4, SysWrite 4 ''llo'',
                                  SysFsync 4]\<rparr>)) =
       bytes_written (input_fd handle0) (calls world0) @ ''hello''"
    by blast
  moreover from t have
    "fst (write_to_process_win (Some handle0_win) ''hello'' (WriteFileOk 5) world0_win) = 5"
    by simp
  moreover have
    "map_option fst
        (write_to_process (Some handle0) ''hello'' [Accepted 2, WriteFailed, Accepted 9] world0) =
       Some (- 1)"
    using write_to_process_result [OF p q, of "''hello''" "[Accepted 2, WriteFailed, Accepted 9]"
        world0, THEN conjunct2, THEN conjunct2, THEN conjunct2, THEN conjunct1]
    by simp
  moreover have
    "map_option fst (write_to_process (Some handle0) ''hello'' [Accepted 2, Interrupted] world0) =
       None"
    using write_to_process_result [OF p q, of "''hello''" "[Accepted 2, Interrupted]"
        world0, THEN conjunct2, THEN conjunct2, THEN conjunct2, THEN conjunct1]
    by simp
  ultimately show ?thesis using p q l write_example by blast
qed

section \<open>Properties of reading\<close>

lemma read_post_unchanged: "1 \<le> buffer_size \<Longrightarrow> n \<le> 0 \<Longrightarrow> read_post buffer_size buffer cands n buffer"
  by (simp add: read_post_def)

lemma read_post_copy:
  assumes "got = take m ready" "length got \<le> length buffer" "0 < length got"
    "int (length got) \<le> buffer_size - 1" "buffer_size \<le> int (length buffer)"
    "ready \<in> set cands"
  shows "read_post buffer_size buffer cands (int (length got))
           ((got @ drop (length got) buffer)[length got := NUL])"
proof -
  let ?k = "length got"
  have k: "?k < length buffer" using assms(4,5) by simp
  have 1: "((got @ drop ?k buffer)[?k := NUL]) ! ?k = NUL"
    using k by (simp add: nth_list_update)
  have 2: "take ?k ((got @ drop ?k buffer)[?k := NUL]) = got" by simp
  have 3: "take ?k ready = got" using assms(1) by (metis append_eq_conv_conj append_take_drop_id)
  have 4: "drop (?k + 1) ((got @ drop ?k buffer)[?k := NUL]) = drop (?k + 1) buffer"
    by simp
  have 5: "?k \<le> length ready" using assms(1) by simp
  show ?thesis
    unfolding read_post_def using assms(3,4,6) k 1 2 3 4 5 by auto
qed

lemma take_mod_le: "0 \<le> (c::int) \<Longrightarrow> length (take (nat (c mod m)) xs) \<le> nat c"
  by (cases "m = 0"; cases "m > 0")
     (auto simp: min_def zmod_le_nonneg_dividend nat_le_iff intro: order_trans)


lemma read_terminated_post:
  assumes "1 \<le> buffer_size" "buffer_size \<le> int (length buffer)"
  shows "\<exists>n b. read_terminated r buffer buffer_size = Returned (n, b)
           \<and> read_post buffer_size buffer (ready_bytes r) n b
           \<and> (r = ReadFailed \<longrightarrow> n = -1)
           \<and> (r = ReadData [] \<longrightarrow> n = 0)"
proof (cases r)
  case ReadFailed
  then show ?thesis
    using assms by (simp add: read_terminated_def sys_read_def read_post_def)
next
  case (ReadData ready)
  define got where "got = take (nat ((buffer_size - 1) mod 2 ^ 64)) ready"
  have le: "length got \<le> nat (buffer_size - 1)"
    unfolding got_def using assms(1) by (intro take_mod_le) simp
  then have fit: "length got \<le> length buffer" "int (length got) \<le> buffer_size - 1"
    using assms by auto
  have rd: "sys_read r buffer (buffer_size - 1) =
              Returned (int (length got), got @ drop (length got) buffer)"
    using ReadData fit by (simp add: sys_read_def got_def Let_def)
  show ?thesis
  proof (cases "length got = 0")
    case True
    then show ?thesis
      using rd assms ReadData by (simp add: read_terminated_def read_post_def)
  next
    case False
    then have pos: "0 < length got" by simp
    have lt: "int (length got) < int (length (got @ drop (length got) buffer))"
      using fit assms by simp
    have st: "store (got @ drop (length got) buffer) (int (length got)) NUL =
                Returned ((got @ drop (length got) buffer)[length got := NUL])"
      using lt by (simp add: store_def)
    have "read_terminated r buffer buffer_size =
            Returned (int (length got), (got @ drop (length got) buffer)[length got := NUL])"
      using rd st pos by (simp add: read_terminated_def)
    moreover have "read_post buffer_size buffer (ready_bytes r) (int (length got))
                     ((got @ drop (length got) buffer)[length got := NUL])"
      using read_post_copy [OF got_def fit(1) pos fit(2) assms(2), of "ready_bytes r"] ReadData
      by simp
    moreover have "r \<noteq> ReadData []" using ReadData pos got_def by auto
    ultimately show ?thesis using ReadData by auto
  qed
qed

lemma read_post_more_candidates:
  "read_post buffer_size buffer cands n b \<Longrightarrow> set cands \<subseteq> set cands' \<Longrightarrow>
   read_post buffer_size buffer cands' n b"
  unfolding read_post_def by (auto split: if_splits)

lemma read_from_fd_post:
  assumes "1 \<le> buffer_size" "buffer_size \<le> int (length buffer)"
  shows "\<exists>n b. read_from_fd fd buffer buffer_size poll_result revents kernel_read = Returned (n, b)
           \<and> read_post buffer_size buffer (ready_bytes (kernel_read fd)) n b"
  using read_terminated_post [OF assms, of "kernel_read fd"] read_post_unchanged [OF assms(1)]
  by (auto simp: read_from_fd_def)

lemma read_from_output_post:
  assumes "1 \<le> buffer_size" "buffer_size \<le> int (length buffer)"
  shows "\<exists>n b. read_from_output (Some h) buffer buffer_size timeout_ms poll_result revents
                 kernel_read = Returned (n, b)
           \<and> read_post buffer_size buffer (ready_bytes (kernel_read (output_fd h))) n b"
  using read_from_fd_post [OF assms] read_post_unchanged [OF assms(1)]
  by (auto simp: read_from_output_def)

lemma read_from_error_post:
  assumes "1 \<le> buffer_size" "buffer_size \<le> int (length buffer)"
  shows "\<exists>n b. read_from_error (Some h) buffer buffer_size timeout_ms poll_result revents
                 kernel_read = Returned (n, b)
           \<and> read_post buffer_size buffer (ready_bytes (kernel_read (error_fd h))) n b"
  using read_from_fd_post [OF assms] read_post_unchanged [OF assms(1)]
  by (auto simp: read_from_error_def)

lemma read_available_scan_post:
  assumes "1 \<le> buffer_size" "buffer_size \<le> int (length buffer)"
  shows "\<exists>n b s. read_available_scan h buffer buffer_size source revents kernel_read is =
                     Returned (n, b, s)
           \<and> read_post buffer_size buffer
                (ready_bytes (kernel_read (output_fd h)) @ ready_bytes (kernel_read (error_fd h)))
                n b"
proof (induction "is")
  case Nil
  then show ?case using read_post_unchanged [OF assms(1)] by simp
next
  case (Cons i later)
  show ?case
  proof (cases "revents i AND POLLIN \<noteq> 0")
    case False
    then show ?thesis using Cons by simp
  next
    case True
    define fd where "fd = (if i = 0 \<and> output_fd h \<ge> 0 then output_fd h else error_fd h)"
    obtain n b where r: "read_terminated (kernel_read fd) buffer buffer_size = Returned (n, b)"
      and p: "read_post buffer_size buffer (ready_bytes (kernel_read fd)) n b"
      using read_terminated_post [OF assms, of "kernel_read fd"] by blast
    have "set (ready_bytes (kernel_read fd)) \<subseteq>
            set (ready_bytes (kernel_read (output_fd h)) @ ready_bytes (kernel_read (error_fd h)))"
      by (auto simp: fd_def)
    from read_post_more_candidates [OF p this] r True show ?thesis
      by (auto simp: fd_def)
  qed
qed

lemma read_available_post:
  assumes "1 \<le> buffer_size" "buffer_size \<le> int (length buffer)"
  shows "\<exists>n b s. read_available (Some h) buffer buffer_size timeout_ms source poll_result revents
                   kernel_read = Returned (n, b, s)
           \<and> read_post buffer_size buffer
                (ready_bytes (kernel_read (output_fd h)) @ ready_bytes (kernel_read (error_fd h)))
                n b"
proof -
  define nfds :: nat
    where "nfds = (if output_fd h \<ge> 0 then 1 else 0) + (if error_fd h \<ge> 0 then 1 else 0)"
  have ra: "read_available (Some h) buffer buffer_size timeout_ms source poll_result revents
              kernel_read =
            (if nfds = 0 then Returned (-1, buffer, source)
             else if poll_result = -1 then Returned (-1, buffer, source)
             else if poll_result = 0 then Returned (0, buffer, source)
             else read_available_scan h buffer buffer_size source revents kernel_read [0..<nfds])"
    unfolding read_available_def nfds_def Let_def by simp
  show ?thesis
    unfolding ra
    using read_available_scan_post [OF assms, of h source revents kernel_read "[0..<nfds]"]
      read_post_unchanged [OF assms(1)]
    by (auto simp del: read_available_scan.simps)
qed

lemma unat_word_of_int_small:
  "(0::int) \<le> c \<Longrightarrow> c < 2 ^ 32 \<Longrightarrow> unat (word_of_int c :: 32 word) = nat c"
  by transfer (simp add: take_bit_int_eq_self)

lemma sint_of_nat_small: "k < 2 ^ 31 \<Longrightarrow> sint (of_nat k :: 32 word) = int k"
  by transfer (simp add: signed_take_bit_int_eq_self)

lemma unat_of_nat_small: "k < 2147483648 \<Longrightarrow> unat (of_nat k :: 32 word) = k"
  by transfer (simp add: take_bit_int_eq_self)

lemma uint_of_nat_small: "k < 2147483648 \<Longrightarrow> uint (of_nat k :: 32 word) = int k"
  by transfer (simp add: take_bit_int_eq_self)

lemma of_nat_pos_small: "k < 2147483648 \<Longrightarrow> (0 < (of_nat k :: 32 word)) = (0 < k)"
  using unat_of_nat_small [of k] by (simp add: word_less_nat_alt)

lemma transfer_win_eq:
  assumes "1 \<le> buffer_size" "buffer_size \<le> int (length buffer)" "buffer_size \<le> 2147483647"
  obtains got where "got = take (nat (buffer_size - 1)) ready"
    and "transfer_win ready buffer (buffer_size - 1) =
           Returned (of_nat (length got), got @ drop (length got) buffer)"
proof -
  have "unat (word_of_int (buffer_size - 1) :: 32 word) = nat (buffer_size - 1)"
    using assms by (intro unat_word_of_int_small) auto
  moreover have "length (take (nat (buffer_size - 1)) ready) \<le> length buffer"
    using assms by auto
  ultimately have "transfer_win ready buffer (buffer_size - 1) =
      Returned (of_nat (length (take (nat (buffer_size - 1)) ready)),
                take (nat (buffer_size - 1)) ready
                  @ drop (length (take (nat (buffer_size - 1)) ready)) buffer)"
    by (simp add: transfer_win_def Let_def del: length_take)
  then show ?thesis using that by blast
qed

lemma terminate_win_post:
  assumes "1 \<le> buffer_size" "buffer_size \<le> int (length buffer)" "buffer_size \<le> 2147483647"
    and "ready \<in> set cands" and got: "got = take (nat (buffer_size - 1)) ready"
  shows "\<exists>n b.
           (if (of_nat (length got) :: 32 word) > 0
            then (case store (got @ drop (length got) buffer)
                         (uint (of_nat (length got) :: 32 word)) NUL of
                    Fault \<Rightarrow> Fault
                  | Returned buffer'' \<Rightarrow> Returned (sint (of_nat (length got) :: 32 word), buffer''))
            else if (of_nat (length got) :: 32 word) = 0
            then Returned (0, got @ drop (length got) buffer)
            else Returned (sint (of_nat (length got) :: 32 word), got @ drop (length got) buffer))
             = Returned (n, b)
           \<and> read_post buffer_size buffer cands n b"
proof -
  have fit: "length got \<le> length buffer" "int (length got) \<le> buffer_size - 1"
    using assms(1,2) by (auto simp: got)
  have small: "length got < 2147483648" using fit(2) assms(3) by simp
  have small': "length got < 2 ^ 31" using small by simp
  show ?thesis
  proof (cases "length got = 0")
    case True
    then show ?thesis
      using read_post_unchanged [OF assms(1), of 0 buffer cands] by simp
  next
    case False
    then have pos: "0 < length got" by simp
    have lt: "int (length got) < int (length (got @ drop (length got) buffer))"
      using fit assms(1,2) by simp
    have st: "store (got @ drop (length got) buffer) (int (length got)) NUL =
                Returned ((got @ drop (length got) buffer)[length got := NUL])"
      using lt by (simp add: store_def)
    have "read_post buffer_size buffer cands (int (length got))
            ((got @ drop (length got) buffer)[length got := NUL])"
      using read_post_copy [OF got fit(1) pos fit(2) assms(2,4)] .
    then show ?thesis
      using pos st
      by (simp add: of_nat_pos_small [OF small] uint_of_nat_small [OF small]
          sint_of_nat_small [OF small'])
  qed
qed

lemma read_from_handle_post:
  assumes "1 \<le> buffer_size" "buffer_size \<le> int (length buffer)" "buffer_size \<le> 2147483647"
    and "\<not> other_read_error read_file"
  shows "\<exists>n b. read_from_handle h buffer buffer_size timeout_ms hEvent read_file wait_result
                 overlapped = Returned (n, b)
           \<and> read_post buffer_size buffer
                (ready_bytes_win read_file @ ready_bytes_overlapped overlapped) n b"
proof -
  let ?cands = "ready_bytes_win read_file @ ready_bytes_overlapped overlapped"
  note un = read_post_unchanged [OF assms(1), of _ buffer ?cands]
  show ?thesis
  proof (cases "h = INVALID_HANDLE_VALUE \<or> hEvent = 0")
    case True
    then show ?thesis using un [of "-1"] by (auto simp: read_from_handle_def)
  next
    case False
    show ?thesis
    proof (cases read_file)
      case (ReadFileOk ready)
      have c: "ready \<in> set ?cands" using ReadFileOk by simp
      obtain got where got: "got = take (nat (buffer_size - 1)) ready"
        and tr: "transfer_win ready buffer (buffer_size - 1) =
                   Returned (of_nat (length got), got @ drop (length got) buffer)"
        using transfer_win_eq [OF assms(1-3)] by blast
      from terminate_win_post [OF assms(1-3) c got] show ?thesis
        using False ReadFileOk by (simp add: read_from_handle_def tr)
    next
      case (ReadFileFailed err)
      with assms(4) have e: "err = ERROR_IO_PENDING \<or> err = ERROR_BROKEN_PIPE"
        by (simp add: other_read_error_def)
      show ?thesis
      proof (cases "err = ERROR_IO_PENDING \<and> wait_result = WAIT_OBJECT_0")
        case True
        show ?thesis
        proof (cases overlapped)
          case OverlappedFailed
          then show ?thesis
            using False ReadFileFailed True un [of 0] by (simp add: read_from_handle_def)
        next
          case (OverlappedOk ready)
          have c: "ready \<in> set ?cands" using OverlappedOk by simp
          obtain got where got: "got = take (nat (buffer_size - 1)) ready"
            and tr: "transfer_win ready buffer (buffer_size - 1) =
                       Returned (of_nat (length got), got @ drop (length got) buffer)"
            using transfer_win_eq [OF assms(1-3)] by blast
          from terminate_win_post [OF assms(1-3) c got] show ?thesis
            using False ReadFileFailed True OverlappedOk by (simp add: read_from_handle_def tr)
        qed
      next
        case no: False
        then show ?thesis
          using False ReadFileFailed e un [of 0] by (auto simp: read_from_handle_def)
      qed
    qed
  qed
qed

lemma read_from_output_win_post:
  assumes "1 \<le> buffer_size" "buffer_size \<le> int (length buffer)" "buffer_size \<le> 2147483647"
    and "\<not> other_read_error read_file"
  shows "\<exists>n b. read_from_output_win (Some hw) buffer buffer_size timeout_ms hEvent read_file
                 wait_result overlapped = Returned (n, b)
           \<and> read_post buffer_size buffer
                (ready_bytes_win read_file @ ready_bytes_overlapped overlapped) n b"
  using read_from_handle_post [OF assms] read_post_unchanged [OF assms(1)]
  by (auto simp: read_from_output_win_def)

lemma read_from_error_win_post:
  assumes "1 \<le> buffer_size" "buffer_size \<le> int (length buffer)" "buffer_size \<le> 2147483647"
    and "\<not> other_read_error read_file"
  shows "\<exists>n b. read_from_error_win (Some hw) buffer buffer_size timeout_ms hEvent read_file
                 wait_result overlapped = Returned (n, b)
           \<and> read_post buffer_size buffer
                (ready_bytes_win read_file @ ready_bytes_overlapped overlapped) n b"
  using read_from_handle_post [OF assms] read_post_unchanged [OF assms(1)]
  by (auto simp: read_from_error_win_def)

lemma word_less_small: "n < 2147483648 \<Longrightarrow> (w :: 32 word) < of_nat n \<Longrightarrow> unat w < n"
  using unat_of_nat_small [of n] by (simp add: word_less_nat_alt)

lemma read_available_win_post:
  assumes "1 \<le> buffer_size" "buffer_size \<le> int (length buffer)" "buffer_size \<le> 2147483647"
  shows "\<exists>n b s. read_available_win (Some hw) buffer buffer_size timeout_ms source wait_result
                   read_file last_error = Returned (n, b, s)
           \<and> read_post buffer_size buffer
                (ready_bytes_win (read_file (output_fd_win hw))
                   @ ready_bytes_win (read_file (error_fd_win hw))) n b"
proof -
  let ?cands = "ready_bytes_win (read_file (output_fd_win hw))
                   @ ready_bytes_win (read_file (error_fd_win hw))"
  define handles where "handles =
     (if output_fd_win hw \<noteq> INVALID_HANDLE_VALUE then [output_fd_win hw] else []) @
     (if error_fd_win hw \<noteq> INVALID_HANDLE_VALUE then [error_fd_win hw] else [])"
  note un = read_post_unchanged [OF assms(1), of _ buffer ?cands]
  have len: "length handles < 2147483648" by (simp add: handles_def)
  have sub: "set handles \<subseteq> {output_fd_win hw, error_fd_win hw}" by (auto simp: handles_def)
  show ?thesis
  proof (cases "length handles \<noteq> 0 \<and> wait_result \<noteq> WAIT_TIMEOUT
                \<and> wait_result \<ge> WAIT_OBJECT_0
                \<and> wait_result < WAIT_OBJECT_0 + of_nat (length handles)")
    case False
    then show ?thesis
      using un [of "-1"] un [of 0]
      by (auto simp: read_available_win_def Let_def handles_def [symmetric])
  next
    case True
    define h where "h = handles ! unat (wait_result - WAIT_OBJECT_0)"
    have "unat (wait_result - WAIT_OBJECT_0) < length handles"
      using True word_less_small [OF len, of wait_result] by (simp add: WAIT_OBJECT_0_def)
    then have "h \<in> set handles" unfolding h_def by (rule nth_mem)
    with sub have hc: "set (ready_bytes_win (read_file h)) \<subseteq> set ?cands" by auto
    show ?thesis
    proof (cases "read_file h")
      case (ReadFileFailed err)
      then show ?thesis
        using True un [of 0]
        by (simp add: read_available_win_def Let_def handles_def [symmetric] h_def [symmetric])
    next
      case (ReadFileOk ready)
      have c: "ready \<in> set ?cands" using hc ReadFileOk by auto
      obtain got where got: "got = take (nat (buffer_size - 1)) ready"
        and tr: "transfer_win ready buffer (buffer_size - 1) =
                   Returned (of_nat (length got), got @ drop (length got) buffer)"
        using transfer_win_eq [OF assms(1-3)] by blast
      have fit: "int (length got) \<le> buffer_size - 1" using assms(1) by (auto simp: got)
      then have small: "length got < 2147483648" using assms(3) by simp
      show ?thesis
      proof (cases "length got = 0")
        case z: True
        then show ?thesis
          using True ReadFileOk un [of 0]
          by (simp add: read_available_win_def Let_def handles_def [symmetric] h_def [symmetric] tr)
      next
        case nz: False
        then have pos: "(0 < (of_nat (length got) :: 32 word))"
          by (simp add: of_nat_pos_small [OF small])
        from terminate_win_post [OF assms(1-3) c got] pos
        obtain n b where
          "(case store (got @ drop (length got) buffer)
                         (uint (of_nat (length got) :: 32 word)) NUL of
                    Fault \<Rightarrow> Fault
                  | Returned buffer'' \<Rightarrow> Returned (sint (of_nat (length got) :: 32 word), buffer''))
             = Returned (n, b)" and "read_post buffer_size buffer ?cands n b"
          by auto
        then show ?thesis
          using True ReadFileOk pos
          by (auto simp: read_available_win_def Let_def handles_def [symmetric] h_def [symmetric] tr
              split: result.splits)
      qed
    qed
  qed
qed

text \<open>
  When \<^verbatim>\<open>ReadFile\<close> fails with any other code, \<^verbatim>\<open>bytesRead = -1\<close> makes the
  \<^verbatim>\<open>DWORD\<close> \<open>0xFFFFFFFF\<close>, the test \<^verbatim>\<open>bytesRead > 0\<close> holds, and the terminator is
  stored at index 4294967295: outside every buffer shorter than 4 GiB.
\<close>

lemma read_from_handle_other_error_faults:
  assumes "h \<noteq> INVALID_HANDLE_VALUE" "hEvent \<noteq> 0" "read_file = ReadFileFailed err"
    "err \<noteq> ERROR_IO_PENDING" "err \<noteq> ERROR_BROKEN_PIPE" "length buffer < 4294967296"
  shows "read_from_handle h buffer buffer_size timeout_ms hEvent read_file wait_result overlapped
           = Fault"
proof -
  have "(0 :: 32 word) < - 1" by (simp add: word_gt_0)
  moreover have "uint (- 1 :: 32 word) = 4294967295" by (simp add: unsigned_minus_1_eq_mask mask_eq_exp_minus_1)
  ultimately show ?thesis
    using assms by (simp add: read_from_handle_def store_def)
qed

text \<open>
  Claim C4, as stated: for a non-negative return value \<open>n\<close> the buffer has the terminator
  at index \<open>n\<close>. On a timeout \<^verbatim>\<open>read_from_output\<close> returns 0 and does not touch the
  buffer: a buffer that held \<^verbatim>\<open>xy\<close> still starts with \<^verbatim>\<open>x\<close>.
\<close>

theorem read_timeout_leaves_buffer_unterminated:
  "(1::int) \<le> 2
   \<and> read_from_output (Some handle0) ''xy'' 2 1000 0 0 (\<lambda>fd. ReadData ''a'') =
        Returned (0, ''xy'')
   \<and> (0::int) \<ge> 0
   \<and> ''xy'' ! 0 \<noteq> NUL"
  by (simp add: read_from_output_def read_from_fd_def handle0_def NUL_def)

text \<open>
  Claim C4, amended. For a buffer of at least \<open>buffer_size\<close> bytes, \<open>buffer_size\<close> from
  1 to \<^verbatim>\<open>INT_MAX\<close>, every read operation returns some \<open>n\<close> that is at most
  \<open>buffer_size - 1\<close>; when \<open>n\<close> is positive the buffer holds \<open>n\<close> bytes that were ready
  on the channel and the terminator at index \<open>n\<close>; when \<open>n\<close> is 0 or \<open>-1\<close> the buffer is
  as it was and no terminator is written. On the Windows backend \<^verbatim>\<open>read_from_output\<close>
  and \<^verbatim>\<open>read_from_error\<close> are covered for every answer of \<^verbatim>\<open>ReadFile\<close> but a
  failure with a code other than \<^verbatim>\<open>ERROR_IO_PENDING\<close> and \<^verbatim>\<open>ERROR_BROKEN_PIPE\<close>.
\<close>

theorem read_bounded_and_terminated:
  assumes "1 \<le> buffer_size" "buffer_size \<le> int (length buffer)" "buffer_size \<le> 2147483647"
  shows "(\<exists>n b. read_from_output (Some h) buffer buffer_size timeout_ms poll_result revents
                  kernel_read = Returned (n, b)
            \<and> read_post buffer_size buffer (ready_bytes (kernel_read (output_fd h))) n b)
       \<and> (\<exists>n b. read_from_error (Some h) buffer buffer_size timeout_ms poll_result revents
                  kernel_read = Returned (n, b)
            \<and> read_post buffer_size buffer (ready_bytes (kernel_read (error_fd h))) n b)
       \<and> (\<exists>n b s. read_available (Some h) buffer buffer_size timeout_ms source poll_result
                    revents2 kernel_read = Returned (n, b, s)
            \<and> read_post buffer_size buffer
                 (ready_bytes (kernel_read (output_fd h)) @ ready_bytes (kernel_read (error_fd h)))
                 n b)
       \<and> (\<not> other_read_error read_file \<longrightarrow>
            (\<exists>n b. read_from_output_win (Some hw) buffer buffer_size timeout_ms hEvent read_file
                     wait_result overlapped = Returned (n, b)
               \<and> read_post buffer_size buffer
                    (ready_bytes_win read_file @ ready_bytes_overlapped overlapped) n b)
            \<and> (\<exists>n b. read_from_error_win (Some hw) buffer buffer_size timeout_ms hEvent read_file
                     wait_result overlapped = Returned (n, b)
               \<and> read_post buffer_size buffer
                    (ready_bytes_win read_file @ ready_bytes_overlapped overlapped) n b))
       \<and> (\<exists>n b s. read_available_win (Some hw) buffer buffer_size timeout_ms source wait_result
                    read_file2 last_error = Returned (n, b, s)
            \<and> read_post buffer_size buffer
                 (ready_bytes_win (read_file2 (output_fd_win hw))
                    @ ready_bytes_win (read_file2 (error_fd_win hw))) n b)"
proof -
  note posix = assms(1,2)
  have w: "\<not> other_read_error read_file \<longrightarrow>
            (\<exists>n b. read_from_output_win (Some hw) buffer buffer_size timeout_ms hEvent read_file
                     wait_result overlapped = Returned (n, b)
               \<and> read_post buffer_size buffer
                    (ready_bytes_win read_file @ ready_bytes_overlapped overlapped) n b)
            \<and> (\<exists>n b. read_from_error_win (Some hw) buffer buffer_size timeout_ms hEvent read_file
                     wait_result overlapped = Returned (n, b)
               \<and> read_post buffer_size buffer
                    (ready_bytes_win read_file @ ready_bytes_overlapped overlapped) n b)"
    using read_from_output_win_post [OF assms] read_from_error_win_post [OF assms] by blast
  show ?thesis
    using read_from_output_post [OF posix, of h timeout_ms poll_result revents kernel_read]
      read_from_error_post [OF posix, of h timeout_ms poll_result revents kernel_read]
      read_available_post [OF posix, of h timeout_ms source poll_result revents2 kernel_read]
      read_available_win_post [OF assms, of hw timeout_ms source wait_result read_file2 last_error]
      w
    by blast
qed

lemma read_example:
  "read_from_output (Some handle0) ''xyz'' 3 1000 1 POLLIN (\<lambda>fd. ReadData ''hello'') =
     Returned (2, [CHR ''h'', CHR ''e'', NUL])"
  by (simp add: read_from_output_def read_from_fd_def read_terminated_def sys_read_def store_def
      handle0_def POLLIN_def Let_def)

theorem read_bounded_and_terminated_witness:
  "((1::int) \<le> 3 \<and> 3 \<le> int (length ''xyz'') \<and> (3::int) \<le> 2147483647)
   \<and> read_from_output (Some handle0) ''xyz'' 3 1000 1 POLLIN (\<lambda>fd. ReadData ''hello'') =
        Returned (2, [CHR ''h'', CHR ''e'', NUL])
   \<and> read_post 3 ''xyz'' (ready_bytes ((\<lambda>fd. ReadData ''hello'') (output_fd handle0))) 2
        [CHR ''h'', CHR ''e'', NUL]"
proof -
  have p: "(1::int) \<le> 3" "3 \<le> int (length ''xyz'')" "(3::int) \<le> 2147483647" by simp_all
  from read_bounded_and_terminated [OF p, of handle0 1000 1 POLLIN "\<lambda>fd. ReadData ''hello''"]
  obtain n b where
    "read_from_output (Some handle0) ''xyz'' 3 1000 1 POLLIN (\<lambda>fd. ReadData ''hello'') =
       Returned (n, b)"
    and "read_post 3 ''xyz'' (ready_bytes ((\<lambda>fd. ReadData ''hello'') (output_fd handle0))) n b"
    by blast
  with read_example p show ?thesis by simp
qed

lemma read_terminated_eof: "read_terminated (ReadData []) buffer buffer_size = Returned (0, buffer)"
  by (simp add: read_terminated_def sys_read_def)

lemma read_terminated_failed: "read_terminated ReadFailed buffer buffer_size = Returned (-1, buffer)"
  by (simp add: read_terminated_def sys_read_def)

text \<open>
  Claim C5, as stated: every failure of the wait gives \<open>-1\<close>. On the Windows backend a
  \<^verbatim>\<open>WaitForSingleObject\<close> that returns \<^verbatim>\<open>WAIT_FAILED\<close> gives 0, as the timeout does,
  and so does a \<^verbatim>\<open>GetOverlappedResult\<close> that fails.
\<close>

theorem read_wait_failure_returns_zero:
  "output_fd_win handle0_win \<noteq> INVALID_HANDLE_VALUE
   \<and> read_from_output_win (Some handle0_win) ''xy'' 2 1000 60 (ReadFileFailed ERROR_IO_PENDING)
        WAIT_FAILED OverlappedFailed = Returned (0, ''xy'')
   \<and> read_from_output_win (Some handle0_win) ''xy'' 2 1000 60 (ReadFileFailed ERROR_IO_PENDING)
        WAIT_OBJECT_0 OverlappedFailed = Returned (0, ''xy'')
   \<and> (0::int) \<noteq> - 1"
  by (simp add: read_from_output_win_def read_from_handle_def handle0_win_def
      INVALID_HANDLE_VALUE_def WAIT_FAILED_def WAIT_OBJECT_0_def)

text \<open>
  Claim C5, amended. On a valid endpoint \<^verbatim>\<open>read_from_output\<close> and \<^verbatim>\<open>read_from_error\<close>
  return 0 with the buffer unchanged both on a timeout and at the end of the stream. On
  the POSIX backend a failed \<^verbatim>\<open>poll\<close>, a failed \<^verbatim>\<open>read\<close> and a \<^verbatim>\<open>poll\<close> event
  that is neither \<^verbatim>\<open>POLLIN\<close> nor \<^verbatim>\<open>POLLHUP\<close> give \<open>-1\<close>. On the Windows backend a
  \<^verbatim>\<open>CreateEvent\<close> that fails gives \<open>-1\<close>, while a wait that does not return
  \<^verbatim>\<open>WAIT_OBJECT_0\<close> (timeout or failure) and a \<^verbatim>\<open>GetOverlappedResult\<close> that fails give
  0.
\<close>

theorem read_timeout_eof_and_errors:
  assumes "output_fd h \<ge> 0" "error_fd h \<ge> 0"
    and "output_fd_win hw \<noteq> INVALID_HANDLE_VALUE" "error_fd_win hw \<noteq> INVALID_HANDLE_VALUE"
    and "hnd \<noteq> INVALID_HANDLE_VALUE"
  shows "read_from_output (Some h) buffer buffer_size timeout_ms poll_result revents kernel_read =
           read_from_fd (output_fd h) buffer buffer_size poll_result revents kernel_read
       \<and> read_from_error (Some h) buffer buffer_size timeout_ms poll_result revents kernel_read =
           read_from_fd (error_fd h) buffer buffer_size poll_result revents kernel_read
       \<and> (poll_result = 0 \<longrightarrow>
            read_from_fd fd buffer buffer_size poll_result revents kernel_read =
              Returned (0, buffer))
       \<and> (poll_result \<noteq> 0 \<and> poll_result \<noteq> -1 \<and> revents AND POLLIN \<noteq> 0
            \<and> kernel_read fd = ReadData [] \<longrightarrow>
            read_from_fd fd buffer buffer_size poll_result revents kernel_read =
              Returned (0, buffer))
       \<and> (poll_result \<noteq> 0 \<and> poll_result \<noteq> -1 \<and> revents AND POLLIN = 0
            \<and> revents AND POLLHUP \<noteq> 0 \<longrightarrow>
            read_from_fd fd buffer buffer_size poll_result revents kernel_read =
              Returned (0, buffer))
       \<and> (poll_result = -1 \<longrightarrow>
            read_from_fd fd buffer buffer_size poll_result revents kernel_read =
              Returned (-1, buffer))
       \<and> (poll_result \<noteq> 0 \<and> poll_result \<noteq> -1 \<and> revents AND POLLIN \<noteq> 0
            \<and> kernel_read fd = ReadFailed \<longrightarrow>
            read_from_fd fd buffer buffer_size poll_result revents kernel_read =
              Returned (-1, buffer))
       \<and> (poll_result \<noteq> 0 \<and> poll_result \<noteq> -1 \<and> revents AND POLLIN = 0
            \<and> revents AND POLLHUP = 0 \<longrightarrow>
            read_from_fd fd buffer buffer_size poll_result revents kernel_read =
              Returned (-1, buffer))
       \<and> read_from_output_win (Some hw) buffer buffer_size timeout_ms hEvent read_file wait_result
            overlapped =
           read_from_handle (output_fd_win hw) buffer buffer_size timeout_ms hEvent read_file
             wait_result overlapped
       \<and> read_from_error_win (Some hw) buffer buffer_size timeout_ms hEvent read_file wait_result
            overlapped =
           read_from_handle (error_fd_win hw) buffer buffer_size timeout_ms hEvent read_file
             wait_result overlapped
       \<and> (hEvent \<noteq> 0 \<and> read_file = ReadFileFailed ERROR_IO_PENDING
            \<and> wait_result \<noteq> WAIT_OBJECT_0 \<longrightarrow>
            read_from_handle hnd buffer buffer_size timeout_ms hEvent read_file wait_result
              overlapped = Returned (0, buffer))
       \<and> (hEvent \<noteq> 0 \<and> read_file = ReadFileFailed ERROR_BROKEN_PIPE \<longrightarrow>
            read_from_handle hnd buffer buffer_size timeout_ms hEvent read_file wait_result
              overlapped = Returned (0, buffer))
       \<and> (hEvent \<noteq> 0 \<and> read_file = ReadFileFailed ERROR_IO_PENDING
            \<and> wait_result = WAIT_OBJECT_0 \<and> overlapped = OverlappedFailed \<longrightarrow>
            read_from_handle hnd buffer buffer_size timeout_ms hEvent read_file wait_result
              overlapped = Returned (0, buffer))
       \<and> (hEvent = 0 \<longrightarrow>
            read_from_handle hnd buffer buffer_size timeout_ms hEvent read_file wait_result
              overlapped = Returned (-1, buffer))"
proof -
  have a: "read_from_output (Some h) buffer buffer_size timeout_ms poll_result revents kernel_read =
           read_from_fd (output_fd h) buffer buffer_size poll_result revents kernel_read"
    "read_from_error (Some h) buffer buffer_size timeout_ms poll_result revents kernel_read =
           read_from_fd (error_fd h) buffer buffer_size poll_result revents kernel_read"
    using assms(1,2) by (simp_all add: read_from_output_def read_from_error_def)
  have b: "read_from_output_win (Some hw) buffer buffer_size timeout_ms hEvent read_file wait_result
            overlapped =
           read_from_handle (output_fd_win hw) buffer buffer_size timeout_ms hEvent read_file
             wait_result overlapped"
    "read_from_error_win (Some hw) buffer buffer_size timeout_ms hEvent read_file wait_result
            overlapped =
           read_from_handle (error_fd_win hw) buffer buffer_size timeout_ms hEvent read_file
             wait_result overlapped"
    using assms(3,4) by (simp_all add: read_from_output_win_def read_from_error_win_def)
  have c: "poll_result = 0 \<longrightarrow>
            read_from_fd fd buffer buffer_size poll_result revents kernel_read =
              Returned (0, buffer)"
    "poll_result \<noteq> 0 \<and> poll_result \<noteq> -1 \<and> revents AND POLLIN \<noteq> 0
            \<and> kernel_read fd = ReadData [] \<longrightarrow>
            read_from_fd fd buffer buffer_size poll_result revents kernel_read =
              Returned (0, buffer)"
    "poll_result \<noteq> 0 \<and> poll_result \<noteq> -1 \<and> revents AND POLLIN = 0
            \<and> revents AND POLLHUP \<noteq> 0 \<longrightarrow>
            read_from_fd fd buffer buffer_size poll_result revents kernel_read =
              Returned (0, buffer)"
    "poll_result = -1 \<longrightarrow>
            read_from_fd fd buffer buffer_size poll_result revents kernel_read =
              Returned (-1, buffer)"
    "poll_result \<noteq> 0 \<and> poll_result \<noteq> -1 \<and> revents AND POLLIN \<noteq> 0
            \<and> kernel_read fd = ReadFailed \<longrightarrow>
            read_from_fd fd buffer buffer_size poll_result revents kernel_read =
              Returned (-1, buffer)"
    "poll_result \<noteq> 0 \<and> poll_result \<noteq> -1 \<and> revents AND POLLIN = 0
            \<and> revents AND POLLHUP = 0 \<longrightarrow>
            read_from_fd fd buffer buffer_size poll_result revents kernel_read =
              Returned (-1, buffer)"
    by (simp_all add: read_from_fd_def read_terminated_eof read_terminated_failed)
  have pb: "ERROR_BROKEN_PIPE \<noteq> ERROR_IO_PENDING"
    by (simp add: ERROR_BROKEN_PIPE_def ERROR_IO_PENDING_def)
  have d: "hEvent \<noteq> 0 \<and> read_file = ReadFileFailed ERROR_IO_PENDING
            \<and> wait_result \<noteq> WAIT_OBJECT_0 \<longrightarrow>
            read_from_handle hnd buffer buffer_size timeout_ms hEvent read_file wait_result
              overlapped = Returned (0, buffer)"
    "hEvent \<noteq> 0 \<and> read_file = ReadFileFailed ERROR_BROKEN_PIPE \<longrightarrow>
            read_from_handle hnd buffer buffer_size timeout_ms hEvent read_file wait_result
              overlapped = Returned (0, buffer)"
    "hEvent \<noteq> 0 \<and> read_file = ReadFileFailed ERROR_IO_PENDING
            \<and> wait_result = WAIT_OBJECT_0 \<and> overlapped = OverlappedFailed \<longrightarrow>
            read_from_handle hnd buffer buffer_size timeout_ms hEvent read_file wait_result
              overlapped = Returned (0, buffer)"
    "hEvent = 0 \<longrightarrow>
            read_from_handle hnd buffer buffer_size timeout_ms hEvent read_file wait_result
              overlapped = Returned (-1, buffer)"
    using assms(5) pb by (simp_all add: read_from_handle_def)
  from a b c d show ?thesis by blast
qed

theorem read_timeout_eof_and_errors_witness:
  "(output_fd handle0 \<ge> 0 \<and> error_fd handle0 \<ge> 0
      \<and> output_fd_win handle0_win \<noteq> INVALID_HANDLE_VALUE
      \<and> error_fd_win handle0_win \<noteq> INVALID_HANDLE_VALUE
      \<and> (48::int) \<noteq> INVALID_HANDLE_VALUE)
   \<and> read_from_output (Some handle0) ''xy'' 2 1000 0 0 (\<lambda>fd. ReadData ''a'') =
        Returned (0, ''xy'')
   \<and> read_from_error (Some handle0) ''xy'' 2 1000 0 0 (\<lambda>fd. ReadData ''a'') =
        Returned (0, ''xy'')
   \<and> read_from_output_win (Some handle0_win) ''xy'' 2 1000 60
        (ReadFileFailed ERROR_BROKEN_PIPE) WAIT_TIMEOUT OverlappedFailed = Returned (0, ''xy'')"
proof -
  have p: "output_fd handle0 \<ge> 0" "error_fd handle0 \<ge> 0" by (simp_all add: handle0_def)
  have q: "output_fd_win handle0_win \<noteq> INVALID_HANDLE_VALUE"
    "error_fd_win handle0_win \<noteq> INVALID_HANDLE_VALUE" "(48::int) \<noteq> INVALID_HANDLE_VALUE"
    by (simp_all add: handle0_win_def INVALID_HANDLE_VALUE_def)
  have o: "output_fd_win handle0_win = 48" by (simp add: handle0_win_def)
  have e: "(60::int) \<noteq> 0" by simp
  note t1 = read_timeout_eof_and_errors [OF p q, of "''xy''" 2 1000 0 0 "\<lambda>fd. ReadData ''a''"
      "output_fd handle0" 60 "ReadFileFailed ERROR_BROKEN_PIPE" WAIT_TIMEOUT OverlappedFailed]
  note t2 = read_timeout_eof_and_errors [OF p q, of "''xy''" 2 1000 0 0 "\<lambda>fd. ReadData ''a''"
      "error_fd handle0" 60 "ReadFileFailed ERROR_BROKEN_PIPE" WAIT_TIMEOUT OverlappedFailed]
  from t1 have 1: "read_from_output (Some handle0) ''xy'' 2 1000 0 0 (\<lambda>fd. ReadData ''a'') =
        Returned (0, ''xy'')" by metis
  from t2 have 2: "read_from_error (Some handle0) ''xy'' 2 1000 0 0 (\<lambda>fd. ReadData ''a'') =
        Returned (0, ''xy'')" by metis
  from t1 o e have 3: "read_from_output_win (Some handle0_win) ''xy'' 2 1000 60
        (ReadFileFailed ERROR_BROKEN_PIPE) WAIT_TIMEOUT OverlappedFailed = Returned (0, ''xy'')"
    by metis
  from p q 1 2 3 show ?thesis by blast
qed

section \<open>The null handle\<close>

text \<open>
  Claim C10. On a null handle \<^verbatim>\<open>close_process\<close> does nothing, \<^verbatim>\<open>is_running\<close> returns 0,
  and \<^verbatim>\<open>write_to_process\<close>, \<^verbatim>\<open>read_from_output\<close>, \<^verbatim>\<open>read_from_error\<close> and
  \<^verbatim>\<open>read_available\<close> return \<open>-1\<close>, on both backends, with the state and the buffer as
  they were.
\<close>

theorem null_handle:
  "close_process None child_exit w = Returns w
   \<and> is_running None w = (0, w)
   \<and> write_to_process None data answers w = Some (-1, w)
   \<and> read_from_output None buffer buffer_size timeout_ms poll_result revents kernel_read =
        Returned (-1, buffer)
   \<and> read_from_error None buffer buffer_size timeout_ms poll_result revents kernel_read =
        Returned (-1, buffer)
   \<and> read_available None buffer buffer_size timeout_ms source poll_result revents2 kernel_read =
        Returned (-1, buffer, source)
   \<and> close_process_win None wait_result ww = ww
   \<and> is_running_win None ww = (0, ww)
   \<and> write_to_process_win None data written ww = (-1, ww)
   \<and> read_from_output_win None buffer buffer_size timeout_ms hEvent read_file wait_result
        overlapped = Returned (-1, buffer)
   \<and> read_from_error_win None buffer buffer_size timeout_ms hEvent read_file wait_result
        overlapped = Returned (-1, buffer)
   \<and> read_available_win None buffer buffer_size timeout_ms source wait_result read_file2
        last_error = Returned (-1, buffer, source)"
  by (simp add: close_process_def is_running_def write_to_process_def read_from_output_def
      read_from_error_def read_available_def close_process_win_def is_running_win_def
      write_to_process_win_def read_from_output_win_def read_from_error_win_def
      read_available_win_def)

theorem null_handle_witness:
  "close_process None None world0 = Returns world0
   \<and> is_running None world0 = (0, world0)
   \<and> write_to_process None ''abc'' [Accepted 3] world0 = Some (-1, world0)
   \<and> read_from_output None ''xy'' 2 10 1 POLLIN (\<lambda>fd. ReadData ''a'') = Returned (-1, ''xy'')
   \<and> read_available None ''xy'' 2 10 (Some 0) 1 (\<lambda>i. POLLIN) (\<lambda>fd. ReadData ''a'') =
        Returned (-1, ''xy'', Some 0)
   \<and> is_running_win None world0_win = (0, world0_win)
   \<and> write_to_process_win None ''abc'' (WriteFileOk 3) world0_win = (-1, world0_win)"
  using null_handle [of None world0 "''abc''" "[Accepted 3]" "''xy''" 2 10 1 POLLIN
      "\<lambda>fd. ReadData ''a''" "Some 0" "\<lambda>i. POLLIN" WAIT_TIMEOUT world0_win "WriteFileOk 3"]
  by blast

end
